theory Spec2Isabelle
  imports Main
begin

section \<open>The CAIDA AS-relationship table of \<open>asrel.py\<close>\<close>

text \<open>
  The module loads a line-oriented feed into an object with four containers and answers
  direction-aware lookups. The embedding follows the source function by function:
  every \<open>assert\<close>, every failing built-in and every \<open>raise\<close> is a branch that
  returns an \<open>error\<close>; the object under construction is a record passed along.
  The module runs on Python 2 (it matches \<open>str\<close> patterns against the lines that
  \<open>gzip.open\<close> yields), so lines are byte strings and \<open>\d\<close>, \<open>\s\<close>,
  \<open>strip\<close>, \<open>split\<close> and \<open>int\<close> have their ASCII meaning.
\<close>

subsection \<open>Constants and exceptions\<close>

definition P2C :: int where "P2C = -1"
definition P2P :: int where "P2P = 0"
definition C2P :: int where "C2P = 1"

datatype error =
    AssertionError
  | TypeError
  | ValueError
  | IndexError
  | KeyError string

subsection \<open>The string built-ins the parser relies on\<close>

text \<open>The six ASCII whitespace bytes of \<open>str.strip\<close>, \<open>str.split\<close> and \<open>\s\<close>.\<close>

definition isspace :: "char \<Rightarrow> bool" where
  "isspace c = (c = CHR '' '' \<or> c = CHR 0x09 \<or> c = CHR 0x0A \<or> c = CHR 0x0B
                \<or> c = CHR 0x0C \<or> c = CHR 0x0D)"

definition isdigit :: "char \<Rightarrow> bool" where
  "isdigit c = (c \<in> set ''0123456789'')"

text \<open>\<open>line.strip()\<close>: whitespace is removed at both ends.\<close>

definition strip :: "string \<Rightarrow> string" where
  "strip s = rev (dropWhile isspace (rev (dropWhile isspace s)))"

text \<open>
  \<open>s.split(sep)\<close> for a one-character separator: every occurrence cuts, empty
  fields are kept, and the empty string gives one empty field.
\<close>

fun split_on_aux :: "char \<Rightarrow> string \<Rightarrow> string \<Rightarrow> string list" where
  "split_on_aux sep cur [] = [cur]"
| "split_on_aux sep cur (c # cs) =
     (if c = sep then cur # split_on_aux sep [] cs
      else split_on_aux sep (cur @ [c]) cs)"

definition split_on :: "char \<Rightarrow> string \<Rightarrow> string list" where
  "split_on sep s = split_on_aux sep [] s"

text \<open>\<open>s.split()\<close>: runs of whitespace cut, empty fields are dropped.\<close>

fun split_ws_aux :: "string \<Rightarrow> string \<Rightarrow> string list" where
  "split_ws_aux cur [] = (if cur = [] then [] else [cur])"
| "split_ws_aux cur (c # cs) =
     (if isspace c then (if cur = [] then [] else [cur]) @ split_ws_aux [] cs
      else split_ws_aux (cur @ [c]) cs)"

definition split_ws :: "string \<Rightarrow> string list" where
  "split_ws s = split_ws_aux [] s"

text \<open>
  \<open>int(s)\<close> in base ten, as the language reference states it: surrounding
  whitespace is skipped, one sign may precede the digits with nothing in between, at
  least one digit is needed and nothing else may follow. Anything else raises
  \<open>ValueError\<close>, here \<open>None\<close>. The parser applies \<open>int\<close> to runs of
  digits, to runs of digits and minus signs, and to the date field.
\<close>

definition digit_val :: "char \<Rightarrow> int" where
  "digit_val c = int (of_char c) - 48"

definition decimal :: "string \<Rightarrow> int" where
  "decimal ds = foldl (\<lambda>a c. 10 * a + digit_val c) 0 ds"

definition digits_val :: "string \<Rightarrow> int option" where
  "digits_val ds = (if ds \<noteq> [] \<and> list_all isdigit ds then Some (decimal ds) else None)"

definition py_int :: "string \<Rightarrow> int option" where
  "py_int s =
     (case strip s of
        [] \<Rightarrow> None
      | c # cs \<Rightarrow>
          if c = CHR ''-'' then map_option uminus (digits_val cs)
          else if c = CHR ''+'' then digits_val cs
          else digits_val (c # cs))"

text \<open>\<open>'%d' % n\<close>: the decimal digits of \<open>n\<close>, after a minus sign when negative.\<close>

fun nat_digits :: "nat \<Rightarrow> string" where
  "nat_digits n =
     (if n < 10 then [''0123456789'' ! n]
      else nat_digits (n div 10) @ [''0123456789'' ! (n mod 10)])"

declare nat_digits.simps [simp del]

definition fmt_d :: "int \<Rightarrow> string" where
  "fmt_d n = (if n < 0 then CHR ''-'' # nat_digits (nat (- n)) else nat_digits (nat n))"

subsection \<open>The regular expressions\<close>

text \<open>A literal prefix anchored at the start; the rest of the line is returned.\<close>

definition after_prefix :: "string \<Rightarrow> string \<Rightarrow> string option" where
  "after_prefix p s =
     (if take (length p) s = p then Some (drop (length p) s) else None)"

text \<open>
  \<open>$\<close> matches at the end of the string and also just before a newline that is
  the last character.
\<close>

definition at_end :: "string \<Rightarrow> bool" where
  "at_end s = (s = [] \<or> s = [CHR 0x0A])"

text \<open>
  \<open>^# source:(.*)$\<close>. The dot does not match a newline, so the greedy group runs
  to the first newline or to the end, and \<open>$\<close> has to hold there.
\<close>

definition match_source :: "string \<Rightarrow> string option" where
  "match_source line =
     (case after_prefix ''# source:'' line of
        None \<Rightarrow> None
      | Some rest \<Rightarrow>
          if at_end (dropWhile (\<lambda>c. c \<noteq> CHR 0x0A) rest)
          then Some (takeWhile (\<lambda>c. c \<noteq> CHR 0x0A) rest) else None)"

text \<open>
  \<open>([\d\s]+)$\<close> after a literal prefix. The class contains the newline, so the
  group is the whole rest of the line, which must be non-empty and must consist of
  digits and whitespace only.
\<close>

definition match_int_list :: "string \<Rightarrow> string \<Rightarrow> string option" where
  "match_int_list p line =
     (case after_prefix p line of
        None \<Rightarrow> None
      | Some rest \<Rightarrow>
          if rest \<noteq> [] \<and> list_all (\<lambda>c. isdigit c \<or> isspace c) rest
          then Some rest else None)"

definition match_clique :: "string \<Rightarrow> string option" where
  "match_clique line = match_int_list ''# inferred clique: '' line"

definition match_ixps :: "string \<Rightarrow> string option" where
  "match_ixps line = match_int_list ''# IXP ASes: '' line"

text \<open>
  \<open>^(\d+)\|(\d+)\|([0-9-]+)$\<close>. Each group is followed by a character outside
  its class, so each group is the longest run of its class.
\<close>

definition isrelchar :: "char \<Rightarrow> bool" where
  "isrelchar c = (isdigit c \<or> c = CHR ''-'')"

text \<open>A non-empty longest run of a character class, and what follows it.\<close>

definition run1 :: "(char \<Rightarrow> bool) \<Rightarrow> string \<Rightarrow> (string \<times> string) option" where
  "run1 P s = (if takeWhile P s = [] then None else Some (takeWhile P s, dropWhile P s))"

definition bar :: "string \<Rightarrow> string option" where
  "bar s = (case s of [] \<Rightarrow> None | c # t \<Rightarrow> if c = CHR ''|'' then Some t else None)"

definition relationship_regexp :: "string \<Rightarrow> (string \<times> string \<times> string) option" where
  "relationship_regexp line =
     (case run1 isdigit line of
        None \<Rightarrow> None
      | Some (g1, r1) \<Rightarrow>
     (case bar r1 of
        None \<Rightarrow> None
      | Some t1 \<Rightarrow>
     (case run1 isdigit t1 of
        None \<Rightarrow> None
      | Some (g2, r2) \<Rightarrow>
     (case bar r2 of
        None \<Rightarrow> None
      | Some t2 \<Rightarrow>
     (case run1 isrelchar t2 of
        None \<Rightarrow> None
      | Some (g3, r3) \<Rightarrow>
          if at_end r3 then Some (g1, g2, g3) else None)))))"

definition relationship_valid :: "int set" where
  "relationship_valid = {P2C, P2P}"

subsection \<open>The table\<close>

record DataSource =
  dtype :: string
  proto :: string
  date :: string
  feed :: string
  collector :: string

record ASRelationshipsDB =
  sources :: "DataSource set"
  clique :: "int set"
  ixps :: "int set"
  pair2rel :: "int \<times> int \<rightharpoonup> int"

text \<open>\<open>DataSource(*fields)\<close>: exactly five positional arguments, else \<open>TypeError\<close>.\<close>

fun DataSource_new :: "string list \<Rightarrow> error + DataSource" where
  "DataSource_new [a, b, c, d, e] =
     Inr \<lparr>dtype = a, proto = b, date = c, feed = d, collector = e\<rparr>"
| "DataSource_new _ = Inl TypeError"

text \<open>
  Each \<open>_parse_*\<close> method returns whether the line was of its shape, together with
  the updated object, or fails.
\<close>

definition parse_source ::
  "ASRelationshipsDB \<Rightarrow> string \<Rightarrow> error + (ASRelationshipsDB \<times> bool)" where
  "parse_source self line =
     (case match_source line of
        None \<Rightarrow> Inr (self, False)
      | Some g \<Rightarrow>
          (case DataSource_new (split_on CHR ''|'' g) of
             Inl e \<Rightarrow> Inl e
           | Inr src \<Rightarrow>
               if dtype src \<noteq> ''topology'' then Inl AssertionError
               else if proto src \<noteq> ''BGP'' then Inl AssertionError
               else (case py_int (date src) of
                       None \<Rightarrow> Inl ValueError
                     | Some d \<Rightarrow>
                         if \<not> d > 0 then Inl AssertionError
                         else Inr (self\<lparr>sources := insert src (sources self)\<rparr>, True))))"

text \<open>\<open>set(int(asn) for asn in group.split())\<close>; the first failing \<open>int\<close> aborts.\<close>

fun ints_of :: "string list \<Rightarrow> error + int list" where
  "ints_of [] = Inr []"
| "ints_of (t # ts) =
     (case py_int t of
        None \<Rightarrow> Inl ValueError
      | Some n \<Rightarrow> (case ints_of ts of Inl e \<Rightarrow> Inl e | Inr ns \<Rightarrow> Inr (n # ns)))"

definition parse_clique ::
  "ASRelationshipsDB \<Rightarrow> string \<Rightarrow> error + (ASRelationshipsDB \<times> bool)" where
  "parse_clique self line =
     (case match_clique line of
        None \<Rightarrow> Inr (self, False)
      | Some g \<Rightarrow>
          (case ints_of (split_ws g) of
             Inl e \<Rightarrow> Inl e
           | Inr ns \<Rightarrow> Inr (self\<lparr>clique := set ns\<rparr>, True)))"

definition parse_ixps ::
  "ASRelationshipsDB \<Rightarrow> string \<Rightarrow> error + (ASRelationshipsDB \<times> bool)" where
  "parse_ixps self line =
     (case match_ixps line of
        None \<Rightarrow> Inr (self, False)
      | Some g \<Rightarrow>
          (case ints_of (split_ws g) of
             Inl e \<Rightarrow> Inl e
           | Inr ns \<Rightarrow> Inr (self\<lparr>ixps := set ns\<rparr>, True)))"

definition parse_relationship ::
  "ASRelationshipsDB \<Rightarrow> string \<Rightarrow> error + (ASRelationshipsDB \<times> bool)" where
  "parse_relationship self line =
     (case relationship_regexp line of
        None \<Rightarrow> Inr (self, False)
      | Some (g1, g2, g3) \<Rightarrow>
          (case ints_of [g1, g2, g3] of
             Inr [as1, as2, rel] \<Rightarrow>
               if rel \<notin> relationship_valid then Inl AssertionError
               else Inr (self\<lparr>pair2rel := (pair2rel self)((as1, as2) \<mapsto> rel)\<rparr>, True)
           | Inr _ \<Rightarrow> Inl ValueError
           | Inl e \<Rightarrow> Inl e))"

text \<open>The body of the \<open>for\<close> loop of \<open>__init__\<close>, for one line as read.\<close>

definition process_line :: "ASRelationshipsDB \<Rightarrow> string \<Rightarrow> error + ASRelationshipsDB" where
  "process_line self raw =
     (let line = strip raw in
      case parse_source self line of
        Inl e \<Rightarrow> Inl e
      | Inr (s1, m1) \<Rightarrow>
          if m1 then Inr s1 else
          (case parse_clique s1 line of
             Inl e \<Rightarrow> Inl e
           | Inr (s2, m2) \<Rightarrow>
               if m2 then Inr s2 else
               (case parse_ixps s2 line of
                  Inl e \<Rightarrow> Inl e
                | Inr (s3, m3) \<Rightarrow>
                    if m3 then Inr s3 else
                    (case parse_relationship s3 line of
                       Inl e \<Rightarrow> Inl e
                     | Inr (s4, m4) \<Rightarrow>
                         if m4 then Inr s4 else
                         (case line of
                            [] \<Rightarrow> Inl IndexError
                          | c # _ \<Rightarrow>
                              if c = CHR ''#'' then Inr s4 else Inl AssertionError)))))"

fun load_lines :: "ASRelationshipsDB \<Rightarrow> string list \<Rightarrow> error + ASRelationshipsDB" where
  "load_lines self [] = Inr self"
| "load_lines self (raw # rest) =
     (case process_line self raw of
        Inl e \<Rightarrow> Inl e
      | Inr self' \<Rightarrow> load_lines self' rest)"

definition empty_db :: ASRelationshipsDB where
  "empty_db = \<lparr>sources = {}, clique = {}, ixps = {}, pair2rel = Map.empty\<rparr>"

text \<open>\<open>__init__\<close>, given the lines that iterating over the opened file yields.\<close>

definition ASRelationshipsDB_init :: "string list \<Rightarrow> error + ASRelationshipsDB" where
  "ASRelationshipsDB_init lines =
     (case load_lines empty_db lines of
        Inl e \<Rightarrow> Inl e
      | Inr self \<Rightarrow>
          if sources self = {} then Inl AssertionError
          else if clique self = {} then Inl AssertionError
          else if ixps self = {} then Inl AssertionError
          else if \<not> card (dom (pair2rel self)) > 1000 then Inl AssertionError
          else Inr self)"

subsection \<open>Lookups\<close>

definition getitem :: "ASRelationshipsDB \<Rightarrow> int \<times> int \<Rightarrow> error + int" where
  "getitem self pair =
     (case pair2rel self pair of
        Some r \<Rightarrow> Inr r
      | None \<Rightarrow>
          (let pair' = (snd pair, fst pair) in
           case pair2rel self pair' of
             Some r \<Rightarrow> Inr (-1 * r)
           | None \<Rightarrow>
               Inl (KeyError (''unknown relationship '' @ fmt_d (snd pair') @ ''-''
                                @ fmt_d (fst pair')))))"

text \<open>
  \<open>get\<close> returns either a stored code or the caller's own \<open>missing\<close> object;
  only \<open>KeyError\<close> is caught.
\<close>

datatype 'a get_result = Code int | Missing 'a

definition get :: "ASRelationshipsDB \<Rightarrow> int \<times> int \<Rightarrow> 'a \<Rightarrow> error + 'a get_result" where
  "get self pair missing =
     (case getitem self pair of
        Inr r \<Rightarrow> Inr (Code r)
      | Inl (KeyError msg) \<Rightarrow> Inr (Missing missing)
      | Inl e \<Rightarrow> Inl e)"

section \<open>A sample feed\<close>

text \<open>
  A feed of the documented format, as the file iterator delivers it (each line with its
  newline): one provenance line, the clique and the exchange-point lines, a comment, the
  customers chain \<open>1|2|-1\<close>, \<open>2|3|-1\<close>, and so on up to \<open>1001|1002|-1\<close>,
  and the peering \<open>1|1614|0\<close>; and the table it loads into. The second feed has
  one more line, which states the link between 1 and 2 from the other end as well. The
  third has the same header and the first 1000 lines of the chain only.
\<close>

definition rel_line :: "int \<times> int \<times> int \<Rightarrow> string" where
  "rel_line t =
     (case t of (a, b, r) \<Rightarrow> fmt_d a @ ''|'' @ fmt_d b @ ''|'' @ fmt_d r @ ''\<newline>'')"

definition chain :: "nat \<Rightarrow> (int \<times> int \<times> int) list" where
  "chain n = map (\<lambda>k. (int k, int k + 1, - 1)) [1..<Suc n]"

definition chain_pair2rel :: "nat \<Rightarrow> int \<times> int \<rightharpoonup> int" where
  "chain_pair2rel n =
     (\<lambda>(a, b). if 1 \<le> a \<and> a \<le> int n \<and> b = a + 1 then Some (- 1) else None)"

definition sample_header :: "string list" where
  "sample_header =
     [''# source:topology|BGP|20130801|ripe|rrc00\<newline>'',
      ''# inferred clique: 174 209 286\<newline>'',
      ''# IXP ASes: 1200 4635\<newline>'',
      ''# step 2: find provider-customer links\<newline>'']"

definition sample_feed :: "string list" where
  "sample_feed = sample_header @ map rel_line (chain 1001 @ [(1, 1614, 0)])"

definition sample_source :: DataSource where
  "sample_source =
     \<lparr>dtype = ''topology'', proto = ''BGP'', date = ''20130801'',
      feed = ''ripe'', collector = ''rrc00''\<rparr>"

definition sample_pair2rel :: "int \<times> int \<rightharpoonup> int" where
  "sample_pair2rel = (chain_pair2rel 1001)((1, 1614) \<mapsto> 0)"

definition sample_db :: ASRelationshipsDB where
  "sample_db =
     \<lparr>sources = {sample_source}, clique = {174, 209, 286}, ixps = {1200, 4635},
      pair2rel = sample_pair2rel\<rparr>"

definition mirror_feed :: "string list" where
  "mirror_feed = sample_feed @ [''2|1|-1\<newline>'']"

definition mirror_db :: ASRelationshipsDB where
  "mirror_db = sample_db\<lparr>pair2rel := (pair2rel sample_db)((2, 1) \<mapsto> - 1)\<rparr>"

definition short_feed :: "string list" where
  "short_feed = sample_header @ map rel_line (chain 1000)"

definition short_db :: ASRelationshipsDB where
  "short_db =
     \<lparr>sources = {sample_source}, clique = {174, 209, 286}, ixps = {1200, 4635},
      pair2rel = chain_pair2rel 1000\<rparr>"

section \<open>Facts about the string built-ins\<close>

subsection \<open>Characters\<close>

lemma isdigit_not_isspace: "isdigit c \<Longrightarrow> \<not> isspace c"
  by (auto simp: isdigit_def isspace_def)

lemma isdigit_not_special:
  "isdigit c \<Longrightarrow> c \<noteq> CHR ''-'' \<and> c \<noteq> CHR ''+'' \<and> c \<noteq> CHR ''|'' \<and> c \<noteq> CHR ''#''"
  by (auto simp: isdigit_def)

lemma isrelchar_not_isspace: "isrelchar c \<Longrightarrow> \<not> isspace c"
  by (auto simp: isrelchar_def isdigit_def isspace_def)

lemma bar_not_class: "\<not> isdigit CHR ''|''" "\<not> isrelchar CHR ''|''" "\<not> isspace CHR ''|''"
  by (simp_all add: isdigit_def isrelchar_def isspace_def)

lemma digit_cases:
  "(d::nat) < 10 \<Longrightarrow>
   d = 0 \<or> d = 1 \<or> d = 2 \<or> d = 3 \<or> d = 4 \<or> d = 5 \<or> d = 6 \<or> d = 7 \<or> d = 8 \<or> d = 9"
  by arith

lemma digit_char_isdigit: "d < 10 \<Longrightarrow> isdigit (''0123456789'' ! d)"
  using digit_cases [of d] by (auto simp: isdigit_def)

lemma digit_char_val: "d < 10 \<Longrightarrow> digit_val (''0123456789'' ! d) = int d"
  using digit_cases [of d] by (auto simp: digit_val_def)

subsection \<open>\<open>strip\<close>\<close>

lemma dropWhile_all: "\<forall>x\<in>set xs. P x \<Longrightarrow> dropWhile P xs = []"
  by simp

lemma strip_nospace: "\<forall>c\<in>set s. \<not> isspace c \<Longrightarrow> strip s = s"
proof -
  assume a: "\<forall>c\<in>set s. \<not> isspace c"
  then have 1: "dropWhile isspace s = s"
    by (cases s) auto
  from a have "\<forall>c\<in>set (rev s). \<not> isspace c" by simp
  then have 2: "dropWhile isspace (rev s) = rev s"
    by (cases "rev s") auto
  show ?thesis by (simp add: strip_def 1 2)
qed

lemma strip_snoc_space: "isspace c \<Longrightarrow> strip (s @ [c]) = strip s"
proof (cases "\<forall>x\<in>set s. isspace x")
  case True
  assume "isspace c"
  with True have "\<forall>x\<in>set (s @ [c]). isspace x" by simp
  then have 1: "dropWhile isspace (s @ [c]) = []" by (rule dropWhile_all)
  from True have 2: "dropWhile isspace s = []" by (rule dropWhile_all)
  show ?thesis unfolding strip_def 1 2 by simp
next
  case False
  assume c: "isspace c"
  from False have "dropWhile isspace (s @ [c]) = dropWhile isspace s @ [c]"
    by (auto simp: dropWhile_append)
  with c show ?thesis by (simp add: strip_def)
qed

lemma strip_all_space: "\<forall>c\<in>set s. isspace c \<Longrightarrow> strip s = []"
  unfolding strip_def by (simp only: dropWhile_all rev.simps dropWhile.simps)

subsection \<open>Decimal numerals\<close>

lemma nat_digits_ne: "nat_digits n \<noteq> []"
  by (subst nat_digits.simps) simp

lemma nat_digits_isdigit: "list_all isdigit (nat_digits n)"
proof (induction n rule: nat_digits.induct)
  case (1 n)
  show ?case
  proof (cases "n < 10")
    case True
    then show ?thesis by (subst nat_digits.simps) (simp add: digit_char_isdigit)
  next
    case False
    with 1 show ?thesis
      by (subst nat_digits.simps) (simp add: digit_char_isdigit)
  qed
qed

lemma decimal_snoc: "decimal (ds @ [c]) = 10 * decimal ds + digit_val c"
  by (simp add: decimal_def)

lemma decimal_nat_digits: "decimal (nat_digits n) = int n"
proof (induction n rule: nat_digits.induct)
  case (1 n)
  show ?case
  proof (cases "n < 10")
    case True
    then show ?thesis
      by (subst nat_digits.simps) (simp add: decimal_def digit_char_val)
  next
    case False
    with 1 have "decimal (nat_digits (n div 10)) = int (n div 10)" by simp
    moreover have "10 * int (n div 10) + int (n mod 10) = int n"
      by (simp add: zdiv_int zmod_int)
    ultimately show ?thesis using False
      by (subst nat_digits.simps) (simp add: decimal_snoc digit_char_val)
  qed
qed

lemma py_int_digits:
  assumes "ds \<noteq> []" "list_all isdigit ds"
  shows "py_int ds = Some (decimal ds)"
proof -
  from assms(2) have "\<forall>c\<in>set ds. \<not> isspace c"
    by (auto simp: list_all_iff isdigit_not_isspace)
  then have s: "strip ds = ds" by (rule strip_nospace)
  from assms obtain c cs where ds: "ds = c # cs" by (cases ds) auto
  with assms(2) have "isdigit c" by simp
  then have "c \<noteq> CHR ''-''" "c \<noteq> CHR ''+''"
    using isdigit_not_special by blast+
  with assms ds s show ?thesis
    by (simp add: py_int_def digits_val_def)
qed

lemma py_int_fmt_d: "py_int (fmt_d n) = Some n"
proof (cases "n < 0")
  case False
  then show ?thesis
    by (simp add: fmt_d_def py_int_digits nat_digits_ne nat_digits_isdigit decimal_nat_digits)
next
  case True
  let ?ds = "nat_digits (nat (- n))"
  have "\<forall>c\<in>set ?ds. \<not> isspace c"
    using nat_digits_isdigit [of "nat (- n)"] isdigit_not_isspace
    by (auto simp: list_all_iff)
  moreover have "\<not> isspace CHR ''-''" by (simp add: isspace_def)
  ultimately have "\<forall>c\<in>set (CHR ''-'' # ?ds). \<not> isspace c" by simp
  then have "strip (CHR ''-'' # ?ds) = CHR ''-'' # ?ds" by (rule strip_nospace)
  with True show ?thesis
    by (simp add: fmt_d_def py_int_def digits_val_def nat_digits_ne nat_digits_isdigit
        decimal_nat_digits)
qed

section \<open>Facts about the regular expressions\<close>

lemma after_prefix_Some: "after_prefix p s = Some r \<longleftrightarrow> s = p @ r"
proof
  assume "after_prefix p s = Some r"
  then have "take (length p) s = p" "drop (length p) s = r"
    by (auto simp: after_prefix_def split: if_splits)
  then show "s = p @ r"
    by (metis append_take_drop_id)
next
  assume "s = p @ r"
  then show "after_prefix p s = Some r"
    by (simp add: after_prefix_def)
qed

lemma after_prefix_hd:
  "after_prefix (c # p) s = Some r \<Longrightarrow> s \<noteq> [] \<and> hd s = c"
  by (auto simp: after_prefix_Some)

lemma after_prefix_None: "s = [] \<or> hd s \<noteq> c \<Longrightarrow> after_prefix (c # p) s = None"
  using after_prefix_hd [of c p s] by (cases "after_prefix (c # p) s") auto

lemma no_hash_no_header:
  assumes "l = [] \<or> hd l \<noteq> CHR ''#''"
  shows "match_source l = None" "match_clique l = None" "match_ixps l = None"
  using assms
  by (simp_all add: match_source_def match_clique_def match_ixps_def match_int_list_def
      after_prefix_None)

lemma clique_not_source: "match_clique l = Some g \<Longrightarrow> match_source l = None"
  by (auto simp: match_clique_def match_int_list_def match_source_def after_prefix_Some
      split: option.splits if_splits)

lemma ixps_not_source: "match_ixps l = Some g \<Longrightarrow> match_source l = None"
  by (auto simp: match_ixps_def match_int_list_def match_source_def after_prefix_Some
      split: option.splits if_splits)

lemma ixps_not_clique: "match_ixps l = Some g \<Longrightarrow> match_clique l = None"
  by (auto simp: match_ixps_def match_int_list_def match_clique_def after_prefix_Some
      split: option.splits if_splits)

lemma match_int_list_SomeD:
  "match_int_list p l = Some g \<Longrightarrow>
   l = p @ g \<and> g \<noteq> [] \<and> list_all (\<lambda>c. isdigit c \<or> isspace c) g"
  by (auto simp: match_int_list_def after_prefix_Some split: option.splits if_splits)

lemma run1_SomeD:
  "run1 P s = Some (g, r) \<Longrightarrow> s = g @ r \<and> g \<noteq> [] \<and> list_all P g \<and> (r = [] \<or> \<not> P (hd r))"
proof -
  assume "run1 P s = Some (g, r)"
  then have g: "g = takeWhile P s" and r: "r = dropWhile P s" and ne: "g \<noteq> []"
    by (auto simp: run1_def split: if_splits)
  have "list_all P (takeWhile P s)"
    by (auto simp: list_all_iff dest: set_takeWhileD)
  moreover have "dropWhile P s = [] \<or> \<not> P (hd (dropWhile P s))"
    using hd_dropWhile by blast
  ultimately show ?thesis using g r ne by simp
qed

lemma run1_sep:
  "ds \<noteq> [] \<Longrightarrow> list_all P ds \<Longrightarrow> \<not> P c \<Longrightarrow> run1 P (ds @ c # rest) = Some (ds, c # rest)"
  by (simp add: run1_def list_all_iff takeWhile_append2 dropWhile_append2)

lemma run1_all: "ds \<noteq> [] \<Longrightarrow> list_all P ds \<Longrightarrow> run1 P ds = Some (ds, [])"
proof -
  assume ne: "ds \<noteq> []" and "list_all P ds"
  then have t: "takeWhile P ds = ds" and d: "dropWhile P ds = []"
    by (simp_all add: list_all_iff)
  show ?thesis unfolding run1_def t d using ne by simp
qed

lemma run1_hd: "run1 P s = Some x \<Longrightarrow> s \<noteq> [] \<and> P (hd s)"
  by (cases s) (auto simp: run1_def split: if_splits)

lemma bar_Some: "bar s = Some t \<longleftrightarrow> s = CHR ''|'' # t"
  by (auto simp: bar_def split: list.splits if_splits)

lemma relationship_regexp_SomeD:
  assumes "relationship_regexp l = Some (g1, g2, g3)"
  shows "\<exists>t. l = g1 @ CHR ''|'' # g2 @ CHR ''|'' # g3 @ t \<and> at_end t \<and>
             g1 \<noteq> [] \<and> list_all isdigit g1 \<and> g2 \<noteq> [] \<and> list_all isdigit g2 \<and>
             g3 \<noteq> [] \<and> list_all isrelchar g3"
proof -
  from assms obtain r1 t1 r2 t2 r3 where
    1: "run1 isdigit l = Some (g1, r1)" and 2: "bar r1 = Some t1" and
    3: "run1 isdigit t1 = Some (g2, r2)" and 4: "bar r2 = Some t2" and
    5: "run1 isrelchar t2 = Some (g3, r3)" and 6: "at_end r3"
    by (auto simp: relationship_regexp_def split: option.splits if_splits)
  from run1_SomeD [OF 1] run1_SomeD [OF 3] run1_SomeD [OF 5] 2 4 6
  show ?thesis by (auto simp: bar_Some)
qed

lemma relationship_regexp_intro:
  assumes "g1 \<noteq> []" "list_all isdigit g1" "g2 \<noteq> []" "list_all isdigit g2"
    "g3 \<noteq> []" "list_all isrelchar g3" "at_end t"
  shows "relationship_regexp (g1 @ CHR ''|'' # g2 @ CHR ''|'' # g3 @ t) = Some (g1, g2, g3)"
proof -
  have 1: "run1 isdigit (g1 @ CHR ''|'' # g2 @ CHR ''|'' # g3 @ t)
             = Some (g1, CHR ''|'' # g2 @ CHR ''|'' # g3 @ t)"
    using assms by (simp add: run1_sep bar_not_class)
  have 2: "run1 isdigit (g2 @ CHR ''|'' # g3 @ t) = Some (g2, CHR ''|'' # g3 @ t)"
    using assms by (simp add: run1_sep bar_not_class)
  have 3: "run1 isrelchar (g3 @ t) = Some (g3, t)"
  proof (cases t)
    case Nil
    then show ?thesis using assms by (simp add: run1_all)
  next
    case (Cons c cs)
    with assms(7) have "t = [CHR 0x0A]" by (simp add: at_end_def)
    moreover have "\<not> isrelchar (CHR 0x0A)" by (simp add: isrelchar_def isdigit_def)
    ultimately show ?thesis using assms by (simp add: run1_sep)
  qed
  show ?thesis using assms(7)
    by (simp add: relationship_regexp_def 1 2 3 bar_def)
qed

lemma relationship_not_header:
  assumes "relationship_regexp l = Some x"
  shows "match_source l = None" "match_clique l = None" "match_ixps l = None"
proof -
  from assms obtain y where "run1 isdigit l = Some y"
    by (auto simp: relationship_regexp_def split: option.splits)
  then have "l \<noteq> [] \<and> isdigit (hd l)" by (rule run1_hd)
  then have "l = [] \<or> hd l \<noteq> CHR ''#''"
    using isdigit_not_special by blast
  then show "match_source l = None" "match_clique l = None" "match_ixps l = None"
    by (rule no_hash_no_header)+
qed

section \<open>Facts about the four line parsers\<close>

lemma ints_of_digits:
  "\<forall>t\<in>set ts. t \<noteq> [] \<and> list_all isdigit t \<Longrightarrow> ints_of ts = Inr (map decimal ts)"
  by (induction ts) (simp_all add: py_int_digits)

lemma split_ws_aux_digits:
  "list_all (\<lambda>c. isdigit c \<or> isspace c) g \<Longrightarrow> list_all isdigit cur \<Longrightarrow>
   \<forall>t\<in>set (split_ws_aux cur g). t \<noteq> [] \<and> list_all isdigit t"
proof (induction g arbitrary: cur)
  case Nil
  then show ?case by simp
next
  case (Cons c g)
  show ?case
  proof (cases "isspace c")
    case True
    with Cons.prems Cons.IH [of "[]"] show ?thesis by simp
  next
    case False
    with Cons.prems have "list_all isdigit (cur @ [c])" by simp
    with Cons.prems Cons.IH [of "cur @ [c]"] False show ?thesis by simp
  qed
qed

lemma ints_of_split_ws:
  "list_all (\<lambda>c. isdigit c \<or> isspace c) g \<Longrightarrow>
   ints_of (split_ws g) = Inr (map decimal (split_ws g))"
  using split_ws_aux_digits [of g "[]"] by (simp add: split_ws_def ints_of_digits)

lemma parse_source_nomatch: "match_source l = None \<Longrightarrow> parse_source self l = Inr (self, False)"
  by (simp add: parse_source_def)

lemma parse_source_matched:
  "match_source l = Some g \<Longrightarrow> parse_source self l = Inr (s, m) \<Longrightarrow> m"
  by (auto simp: parse_source_def split: sum.splits option.splits if_splits)

lemma parse_clique_nomatch: "match_clique l = None \<Longrightarrow> parse_clique self l = Inr (self, False)"
  by (simp add: parse_clique_def)

lemma parse_clique_match:
  "match_clique l = Some g \<Longrightarrow>
   parse_clique self l = Inr (self\<lparr>clique := set (map decimal (split_ws g))\<rparr>, True)"
  using match_int_list_SomeD [of "''# inferred clique: ''" l g]
  by (simp add: parse_clique_def match_clique_def ints_of_split_ws)

lemma parse_ixps_nomatch: "match_ixps l = None \<Longrightarrow> parse_ixps self l = Inr (self, False)"
  by (simp add: parse_ixps_def)

lemma parse_ixps_match:
  "match_ixps l = Some g \<Longrightarrow>
   parse_ixps self l = Inr (self\<lparr>ixps := set (map decimal (split_ws g))\<rparr>, True)"
  using match_int_list_SomeD [of "''# IXP ASes: ''" l g]
  by (simp add: parse_ixps_def match_ixps_def ints_of_split_ws)

lemma parse_relationship_nomatch:
  "relationship_regexp l = None \<Longrightarrow> parse_relationship self l = Inr (self, False)"
  by (simp add: parse_relationship_def)

lemma parse_relationship_match:
  assumes "relationship_regexp l = Some (g1, g2, g3)"
  shows "parse_relationship self l =
     (case py_int g3 of
        None \<Rightarrow> Inl ValueError
      | Some rel \<Rightarrow>
          if rel \<in> relationship_valid
          then Inr (self\<lparr>pair2rel := (pair2rel self)((decimal g1, decimal g2) \<mapsto> rel)\<rparr>, True)
          else Inl AssertionError)"
proof -
  from relationship_regexp_SomeD [OF assms]
  have "py_int g1 = Some (decimal g1)" "py_int g2 = Some (decimal g2)"
    by (auto simp: py_int_digits)
  with assms show ?thesis
    by (simp add: parse_relationship_def split: option.splits)
qed

section \<open>One pass of the loop body\<close>

lemma process_line_source:
  assumes "match_source (strip raw) = Some g"
  shows "process_line self raw =
           (case parse_source self (strip raw) of Inl e \<Rightarrow> Inl e | Inr (s, m) \<Rightarrow> Inr s)"
  using parse_source_matched [OF assms, of self]
  by (auto simp: process_line_def Let_def split: sum.splits prod.splits)

lemma process_line_clique:
  assumes "match_clique (strip raw) = Some g"
  shows "process_line self raw = Inr (self\<lparr>clique := set (map decimal (split_ws g))\<rparr>)"
  using assms
  by (simp add: process_line_def Let_def parse_source_nomatch clique_not_source
      parse_clique_match)

lemma process_line_ixps:
  assumes "match_ixps (strip raw) = Some g"
  shows "process_line self raw = Inr (self\<lparr>ixps := set (map decimal (split_ws g))\<rparr>)"
  using assms
  by (simp add: process_line_def Let_def parse_source_nomatch ixps_not_source
      parse_clique_nomatch ixps_not_clique parse_ixps_match)

lemma process_line_relationship:
  assumes "relationship_regexp (strip raw) = Some (g1, g2, g3)"
  shows "process_line self raw =
     (case py_int g3 of
        None \<Rightarrow> Inl ValueError
      | Some rel \<Rightarrow>
          if rel \<in> relationship_valid
          then Inr (self\<lparr>pair2rel := (pair2rel self)((decimal g1, decimal g2) \<mapsto> rel)\<rparr>)
          else Inl AssertionError)"
  using assms relationship_not_header [OF assms]
  by (simp add: process_line_def Let_def parse_source_nomatch parse_clique_nomatch
      parse_ixps_nomatch parse_relationship_match split: option.splits)

lemma process_line_other:
  assumes "match_source (strip raw) = None" "match_clique (strip raw) = None"
    "match_ixps (strip raw) = None" "relationship_regexp (strip raw) = None"
  shows "process_line self raw =
     (case strip raw of
        [] \<Rightarrow> Inl IndexError
      | c # _ \<Rightarrow> if c = CHR ''#'' then Inr self else Inl AssertionError)"
  using assms
  by (simp add: process_line_def Let_def parse_source_nomatch parse_clique_nomatch
      parse_ixps_nomatch parse_relationship_nomatch)

lemma parse_source_frame:
  "parse_source self l = Inr (s, m) \<Longrightarrow>
   clique s = clique self \<and> ixps s = ixps self \<and> pair2rel s = pair2rel self \<and>
   sources self \<subseteq> sources s"
  by (auto simp: parse_source_def split: option.splits sum.splits if_splits)

lemma process_line_frame:
  assumes "process_line self raw = Inr s"
  shows "(match_clique (strip raw) = None \<longrightarrow> clique s = clique self) \<and>
         (match_ixps (strip raw) = None \<longrightarrow> ixps s = ixps self) \<and>
         (relationship_regexp (strip raw) = None \<longrightarrow> pair2rel s = pair2rel self) \<and>
         (match_source (strip raw) = None \<longrightarrow> sources s = sources self) \<and>
         sources self \<subseteq> sources s"
proof (cases "match_source (strip raw)")
  case (Some g)
  with assms process_line_source [OF Some, of self] parse_source_frame [of self "strip raw"]
  show ?thesis by (auto split: sum.splits prod.splits)
next
  case noS: None
  show ?thesis
  proof (cases "match_clique (strip raw)")
    case (Some g)
    with assms noS process_line_clique [OF Some, of self] show ?thesis by auto
  next
    case noC: None
    show ?thesis
    proof (cases "match_ixps (strip raw)")
      case (Some g)
      with assms noS noC process_line_ixps [OF Some, of self] show ?thesis by auto
    next
      case noI: None
      show ?thesis
      proof (cases "relationship_regexp (strip raw)")
        case (Some x)
        obtain g1 g2 g3 where x: "x = (g1, g2, g3)" by (cases x) auto
        from assms noS noC noI Some process_line_relationship [OF Some [unfolded x], of self]
        show ?thesis by (auto split: option.splits if_splits)
      next
        case None
        with assms noS noC noI process_line_other [OF noS noC noI None, of self]
        show ?thesis by (auto split: list.splits if_splits)
      qed
    qed
  qed
qed

section \<open>The loop and the constructor\<close>

lemma load_lines_append:
  "load_lines self (xs @ ys) =
     (case load_lines self xs of Inl e \<Rightarrow> Inl e | Inr s \<Rightarrow> load_lines s ys)"
  by (induction xs arbitrary: self) (auto split: sum.splits)

lemma load_lines_fatal:
  assumes "\<And>s. \<exists>e. process_line s raw = Inl e"
  shows "\<exists>e. load_lines self (pre @ raw # post) = Inl e"
proof (cases "load_lines self pre")
  case (Inl e)
  then show ?thesis by (simp add: load_lines_append)
next
  case (Inr s)
  from assms [of s] obtain e where "process_line s raw = Inl e" by blast
  with Inr show ?thesis by (simp add: load_lines_append)
qed

lemma init_fatal:
  assumes "\<And>s. \<exists>e. process_line s raw = Inl e"
  shows "\<exists>e. ASRelationshipsDB_init (pre @ raw # post) = Inl e"
  using load_lines_fatal [OF assms, of empty_db pre post]
  by (auto simp: ASRelationshipsDB_init_def)

lemma init_Inr:
  "ASRelationshipsDB_init lines = Inr db \<longleftrightarrow>
     load_lines empty_db lines = Inr db \<and> sources db \<noteq> {} \<and> clique db \<noteq> {} \<and>
     ixps db \<noteq> {} \<and> 1000 < card (dom (pair2rel db))"
  by (auto simp: ASRelationshipsDB_init_def split: sum.splits if_splits)

lemma load_lines_invariant:
  assumes step: "\<And>s raw s'. P s \<Longrightarrow> process_line s raw = Inr s' \<Longrightarrow> P s'"
  shows "P self \<Longrightarrow> load_lines self lines = Inr self' \<Longrightarrow> P self'"
proof (induction lines arbitrary: self)
  case Nil
  then show ?case by simp
next
  case (Cons raw rest)
  from Cons.prems(2) obtain s where s: "process_line self raw = Inr s"
    and r: "load_lines s rest = Inr self'"
    by (auto split: sum.splits)
  from step [OF Cons.prems(1) s] have "P s" .
  from Cons.IH [OF this r] show ?case .
qed

lemma empty_line_no_match:
  "match_source [] = None" "match_clique [] = None" "match_ixps [] = None"
  "relationship_regexp [] = None"
  by (simp_all add: no_hash_no_header relationship_regexp_def run1_def)

lemma process_line_blank: "\<forall>c\<in>set raw. isspace c \<Longrightarrow> process_line self raw = Inl IndexError"
  using process_line_other [of raw self]
  by (simp add: strip_all_space empty_line_no_match)

section \<open>Loading the sample feed\<close>

lemma fmt_d_nonneg:
  "0 \<le> a \<Longrightarrow> fmt_d a \<noteq> [] \<and> list_all isdigit (fmt_d a) \<and> decimal (fmt_d a) = a"
  by (simp add: fmt_d_def nat_digits_ne nat_digits_isdigit decimal_nat_digits)

lemma fmt_d_codes: "fmt_d (- 1) = ''-1''" "fmt_d 0 = ''0''"
  by (simp_all add: fmt_d_def nat_digits.simps)

lemma fmt_d_code: "r = - 1 \<or> r = 0 \<Longrightarrow> fmt_d r \<noteq> [] \<and> list_all isrelchar (fmt_d r)"
  by (auto simp: fmt_d_codes isrelchar_def isdigit_def)

lemma process_rel_line:
  assumes "0 \<le> a" "0 \<le> b" "r = - 1 \<or> r = 0"
  shows "process_line self (rel_line (a, b, r)) =
           Inr (self\<lparr>pair2rel := (pair2rel self)((a, b) \<mapsto> r)\<rparr>)"
proof -
  let ?l = "fmt_d a @ CHR ''|'' # fmt_d b @ CHR ''|'' # fmt_d r @ []"
  have nl: "isspace (CHR 0x0A)" by (simp add: isspace_def)
  have "\<forall>c\<in>set ?l. \<not> isspace c"
    using fmt_d_nonneg [OF assms(1)] fmt_d_nonneg [OF assms(2)] fmt_d_code [OF assms(3)]
      isdigit_not_isspace isrelchar_not_isspace bar_not_class(3)
    by (auto simp: list_all_iff)
  then have "strip ?l = ?l" by (rule strip_nospace)
  moreover have "rel_line (a, b, r) = ?l @ [CHR 0x0A]"
    by (simp add: rel_line_def)
  ultimately have s: "strip (rel_line (a, b, r)) = ?l"
    using strip_snoc_space [OF nl, of ?l] by simp
  have m: "relationship_regexp ?l = Some (fmt_d a, fmt_d b, fmt_d r)"
    using fmt_d_nonneg [OF assms(1)] fmt_d_nonneg [OF assms(2)] fmt_d_code [OF assms(3)]
    by (intro relationship_regexp_intro) (simp_all add: at_end_def)
  have v: "r \<in> relationship_valid"
    using assms(3) by (auto simp: relationship_valid_def P2C_def P2P_def)
  from process_line_relationship [of "rel_line (a, b, r)", unfolded s, OF m, of self]
  show ?thesis
    using fmt_d_nonneg [OF assms(1)] fmt_d_nonneg [OF assms(2)] v
    by (simp add: py_int_fmt_d)
qed

lemma load_rel_lines:
  "\<forall>(a, b, r)\<in>set ts. 0 \<le> a \<and> 0 \<le> b \<and> (r = - 1 \<or> r = 0) \<Longrightarrow>
   load_lines self (map rel_line ts) =
     Inr (self\<lparr>pair2rel := foldl (\<lambda>m (a, b, r). m((a, b) \<mapsto> r)) (pair2rel self) ts\<rparr>)"
proof (induction ts arbitrary: self)
  case Nil
  then show ?case by simp
next
  case (Cons t ts)
  obtain a b r where t: "t = (a, b, r)" by (cases t) auto
  with Cons.prems have "0 \<le> a" "0 \<le> b" "r = - 1 \<or> r = 0" by auto
  then have "process_line self (rel_line t) =
      Inr (self\<lparr>pair2rel := (pair2rel self)((a, b) \<mapsto> r)\<rparr>)"
    unfolding t by (rule process_rel_line)
  moreover from Cons.prems have "\<forall>(a, b, r)\<in>set ts. 0 \<le> a \<and> 0 \<le> b \<and> (r = - 1 \<or> r = 0)"
    by simp
  ultimately show ?case
    using Cons.IH [of "self\<lparr>pair2rel := (pair2rel self)((a, b) \<mapsto> r)\<rparr>"] t by simp
qed

lemma foldl_chain:
  "foldl (\<lambda>m (a, b, r). m((a, b) \<mapsto> r)) m (map (\<lambda>k. (f k, g k, c)) ks) p =
     (if \<exists>k\<in>set ks. p = (f k, g k) then Some c else m p)"
  by (induction ks arbitrary: m) auto

lemma chain_fold:
  "foldl (\<lambda>m (a, b, r). m((a, b) \<mapsto> r)) Map.empty (chain n) = chain_pair2rel n"
proof
  fix p :: "int \<times> int"
  obtain a b where p: "p = (a, b)" by (cases p) auto
  have E: "(\<exists>k\<in>{1..<Suc n}. (a, b) = (int k, int k + 1)) \<longleftrightarrow>
             1 \<le> a \<and> a \<le> int n \<and> b = a + 1"
  proof
    assume "\<exists>k\<in>{1..<Suc n}. (a, b) = (int k, int k + 1)"
    then show "1 \<le> a \<and> a \<le> int n \<and> b = a + 1" by auto
  next
    assume h: "1 \<le> a \<and> a \<le> int n \<and> b = a + 1"
    then have "nat a \<in> {1..<Suc n}" "(a, b) = (int (nat a), int (nat a) + 1)" by auto
    then show "\<exists>k\<in>{1..<Suc n}. (a, b) = (int k, int k + 1)" by blast
  qed
  have "foldl (\<lambda>m (a, b, r). m((a, b) \<mapsto> r)) Map.empty (chain n) (a, b) =
          (if \<exists>k\<in>set [1..<Suc n]. (a, b) = (int k, int k + 1) then Some (- 1)
           else Map.empty (a, b))"
    unfolding chain_def by (rule foldl_chain)
  then show "foldl (\<lambda>m (a, b, r). m((a, b) \<mapsto> r)) Map.empty (chain n) p = chain_pair2rel n p"
    unfolding set_upt E p chain_pair2rel_def by simp
qed

lemma chain_table:
  "foldl (\<lambda>m (a, b, r). m((a, b) \<mapsto> r)) Map.empty (chain 1001 @ [(1, 1614, 0)])
     = sample_pair2rel"
  by (simp add: chain_fold sample_pair2rel_def)

lemma chain_valid: "\<forall>(a, b, r)\<in>set (chain n). 0 \<le> a \<and> 0 \<le> b \<and> (r = - 1 \<or> r = 0)"
  unfolding chain_def set_map set_upt by auto

lemma chain_pair2rel_dom: "dom (chain_pair2rel n) = (\<lambda>k. (int k, int k + 1)) ` {1..<Suc n}"
proof (rule set_eqI)
  fix p :: "int \<times> int"
  obtain a b where p: "p = (a, b)" by (cases p) auto
  have "p \<in> dom (chain_pair2rel n) \<longleftrightarrow> 1 \<le> a \<and> a \<le> int n \<and> b = a + 1"
    by (simp add: p chain_pair2rel_def dom_def)
  also have "\<dots> \<longleftrightarrow> (\<exists>k\<in>{1..<Suc n}. (a, b) = (int k, int k + 1))"
  proof
    assume h: "1 \<le> a \<and> a \<le> int n \<and> b = a + 1"
    then have "nat a \<in> {1..<Suc n}" "(a, b) = (int (nat a), int (nat a) + 1)" by auto
    then show "\<exists>k\<in>{1..<Suc n}. (a, b) = (int k, int k + 1)" by blast
  next
    assume "\<exists>k\<in>{1..<Suc n}. (a, b) = (int k, int k + 1)"
    then show "1 \<le> a \<and> a \<le> int n \<and> b = a + 1" by auto
  qed
  also have "\<dots> \<longleftrightarrow> p \<in> (\<lambda>k. (int k, int k + 1)) ` {1..<Suc n}"
    unfolding p by blast
  finally show "p \<in> dom (chain_pair2rel n) \<longleftrightarrow> p \<in> (\<lambda>k. (int k, int k + 1)) ` {1..<Suc n}" .
qed

lemma chain_pair2rel_card: "card (dom (chain_pair2rel n)) = n"
proof -
  have "inj_on (\<lambda>k. (int k, int k + 1)) {1..<Suc n}" by (auto simp: inj_on_def)
  then show ?thesis by (simp add: chain_pair2rel_dom card_image)
qed

lemma sample_pair2rel_finite: "finite (dom sample_pair2rel)"
  by (simp add: sample_pair2rel_def chain_pair2rel_dom)

lemma sample_pair2rel_card: "1000 < card (dom sample_pair2rel)"
proof -
  have "finite (dom (chain_pair2rel 1001))" by (simp add: chain_pair2rel_dom)
  then have "card (dom (chain_pair2rel 1001)) \<le> card (dom sample_pair2rel)"
    by (intro card_mono) (auto simp: sample_pair2rel_def simp del: dom_map_upds)
  then show ?thesis by (simp add: chain_pair2rel_card)
qed

lemma sample_values:
  "decimal ''174'' = 174" "decimal ''209'' = 209" "decimal ''286'' = 286"
  "decimal ''1200'' = 1200" "decimal ''4635'' = 4635" "py_int ''20130801'' = Some 20130801"
  by (simp_all add: py_int_digits decimal_def digit_val_def isdigit_def)

lemma load_sample_header:
  "load_lines empty_db sample_header =
     Inr \<lparr>sources = {sample_source}, clique = {174, 209, 286}, ixps = {1200, 4635},
          pair2rel = Map.empty\<rparr>"
proof -
  let ?s1 = "empty_db\<lparr>sources := {sample_source}\<rparr>"
  let ?s2 = "?s1\<lparr>clique := {174, 209, 286}\<rparr>"
  let ?s3 = "?s2\<lparr>ixps := {1200, 4635}\<rparr>"
  have st: "strip ''# source:topology|BGP|20130801|ripe|rrc00\<newline>''
              = ''# source:topology|BGP|20130801|ripe|rrc00''"
    "strip ''# inferred clique: 174 209 286\<newline>'' = ''# inferred clique: 174 209 286''"
    "strip ''# IXP ASes: 1200 4635\<newline>'' = ''# IXP ASes: 1200 4635''"
    "strip ''# step 2: find provider-customer links\<newline>''
       = ''# step 2: find provider-customer links''"
    by (simp_all add: strip_def isspace_def)
  have m1: "match_source (strip ''# source:topology|BGP|20130801|ripe|rrc00\<newline>'')
              = Some ''topology|BGP|20130801|ripe|rrc00''"
    unfolding st by (simp add: match_source_def after_prefix_def at_end_def)
  have 1: "process_line empty_db ''# source:topology|BGP|20130801|ripe|rrc00\<newline>'' = Inr ?s1"
    unfolding process_line_source [OF m1] st
    by (simp add: parse_source_def match_source_def after_prefix_def at_end_def split_on_def
        sample_values sample_source_def empty_db_def)
  have m2: "match_clique (strip ''# inferred clique: 174 209 286\<newline>'') = Some ''174 209 286''"
    unfolding st
    by (simp add: match_clique_def match_int_list_def after_prefix_def isdigit_def isspace_def)
  have 2: "process_line ?s1 ''# inferred clique: 174 209 286\<newline>'' = Inr ?s2"
    unfolding process_line_clique [OF m2]
    by (simp add: split_ws_def isspace_def sample_values)
  have m3: "match_ixps (strip ''# IXP ASes: 1200 4635\<newline>'') = Some ''1200 4635''"
    unfolding st
    by (simp add: match_ixps_def match_int_list_def after_prefix_def isdigit_def isspace_def)
  have 3: "process_line ?s2 ''# IXP ASes: 1200 4635\<newline>'' = Inr ?s3"
    unfolding process_line_ixps [OF m3]
    by (simp add: split_ws_def isspace_def sample_values)
  have m4: "match_source (strip ''# step 2: find provider-customer links\<newline>'') = None"
    "match_clique (strip ''# step 2: find provider-customer links\<newline>'') = None"
    "match_ixps (strip ''# step 2: find provider-customer links\<newline>'') = None"
    "relationship_regexp (strip ''# step 2: find provider-customer links\<newline>'') = None"
    unfolding st
    by (simp_all add: match_source_def match_clique_def match_ixps_def match_int_list_def
        after_prefix_def relationship_regexp_def run1_def isdigit_def)
  have 4: "process_line ?s3 ''# step 2: find provider-customer links\<newline>'' = Inr ?s3"
    unfolding process_line_other [OF m4] st by simp
  show ?thesis
    by (simp add: sample_header_def 1 2 3 4) (simp add: empty_db_def)
qed

lemma load_sample_feed: "load_lines empty_db sample_feed = Inr sample_db"
proof -
  have "\<forall>(a, b, r)\<in>set (chain 1001 @ [(1, 1614, 0)]). 0 \<le> a \<and> 0 \<le> b \<and> (r = - 1 \<or> r = 0)"
    using chain_valid [of 1001] by simp
  from load_rel_lines [OF this] show ?thesis
    by (simp add: sample_feed_def load_lines_append load_sample_header chain_table
        sample_db_def del: foldl_append)
qed

lemma init_sample_feed: "ASRelationshipsDB_init sample_feed = Inr sample_db"
  unfolding init_Inr
  by (simp add: load_sample_feed) (simp add: sample_db_def sample_pair2rel_card)

lemma mirror_db_card: "1000 < card (dom (pair2rel mirror_db))"
proof -
  have "card (dom sample_pair2rel) \<le> card (dom (pair2rel mirror_db))"
    using sample_pair2rel_finite
    by (intro card_mono) (auto simp: mirror_db_def sample_db_def)
  with sample_pair2rel_card show ?thesis by simp
qed

lemma init_mirror_feed: "ASRelationshipsDB_init mirror_feed = Inr mirror_db"
proof -
  have "process_line sample_db (rel_line (2, 1, - 1)) = Inr mirror_db"
    by (simp add: process_rel_line mirror_db_def)
  moreover have "rel_line (2, 1, - 1) = ''2|1|-1\<newline>''"
    by (simp add: rel_line_def fmt_d_def nat_digits.simps)
  ultimately have "load_lines empty_db mirror_feed = Inr mirror_db"
    by (simp add: mirror_feed_def load_lines_append load_sample_feed)
  then show ?thesis
    unfolding init_Inr using mirror_db_card
    by (simp add: mirror_db_def sample_db_def)
qed

lemma load_short_feed: "load_lines empty_db short_feed = Inr short_db"
  using load_rel_lines [OF chain_valid [of 1000]]
  by (simp add: short_feed_def load_lines_append load_sample_header chain_fold short_db_def)

lemma short_db_card: "card (dom (pair2rel short_db)) = 1000"
  by (simp add: short_db_def chain_pair2rel_card)

section \<open>Properties of the lookups\<close>

lemmas line_eval =
  strip_def isspace_def isdigit_def isrelchar_def match_source_def match_clique_def
  match_ixps_def match_int_list_def after_prefix_def at_end_def relationship_regexp_def
  run1_def bar_def split_on_def split_ws_def

lemma getitem_direct: "pair2rel self p = Some r \<Longrightarrow> getitem self p = Inr r"
  by (simp add: getitem_def)

lemma getitem_mirror:
  "pair2rel self (a, b) = None \<Longrightarrow> pair2rel self (b, a) = Some r
   \<Longrightarrow> getitem self (a, b) = Inr (- r)"
  by (simp add: getitem_def)

lemma getitem_miss:
  "pair2rel self (a, b) = None \<Longrightarrow> pair2rel self (b, a) = None
   \<Longrightarrow> getitem self (a, b) =
         Inl (KeyError (''unknown relationship '' @ fmt_d a @ ''-'' @ fmt_d b))"
  by (simp add: getitem_def)

lemma getitem_error_is_KeyError: "getitem self p = Inl e \<Longrightarrow> \<exists>msg. e = KeyError msg"
  by (auto simp: getitem_def Let_def split: option.splits)

lemma sample_db_lookups:
  "pair2rel sample_db (1, 2) = Some (- 1)" "pair2rel sample_db (2, 1) = None"
  "pair2rel sample_db (1, 1614) = Some 0" "pair2rel sample_db (1614, 1) = None"
  "pair2rel sample_db (999999, 999998) = None" "pair2rel sample_db (999998, 999999) = None"
  by (simp_all add: sample_db_def sample_pair2rel_def chain_pair2rel_def)

lemma mirror_db_lookups:
  "pair2rel mirror_db (1, 2) = Some (- 1)" "pair2rel mirror_db (2, 1) = Some (- 1)"
  by (simp_all add: mirror_db_def sample_db_def sample_pair2rel_def chain_pair2rel_def)

text \<open>
  C2. A strict lookup of \<open>(queryFrom, queryTo)\<close> returns the stored code when that
  ordered pair is a key, whatever is stored for the reversed pair; when it is not a key
  and the reversed pair is, it returns the negated code of the reversed pair.
\<close>

theorem strict_lookup_algorithm:
  "(pair2rel self (queryFrom, queryTo) = Some r
      \<longrightarrow> getitem self (queryFrom, queryTo) = Inr r) \<and>
   (pair2rel self (queryFrom, queryTo) = None \<and> pair2rel self (queryTo, queryFrom) = Some r
      \<longrightarrow> getitem self (queryFrom, queryTo) = Inr (- r))"
  by (simp add: getitem_direct getitem_mirror)

theorem strict_lookup_algorithm_witness:
  "ASRelationshipsDB_init sample_feed = Inr sample_db \<and>
   pair2rel sample_db (1, 2) = Some (- 1) \<and> getitem sample_db (1, 2) = Inr (- 1) \<and>
   pair2rel sample_db (2, 1) = None \<and> getitem sample_db (2, 1) = Inr 1 \<and>
   pair2rel mirror_db (2, 1) = Some (- 1) \<and> pair2rel mirror_db (1, 2) = Some (- 1) \<and>
   getitem mirror_db (2, 1) = Inr (- 1)"
  using strict_lookup_algorithm [of sample_db 1 2 "- 1"]
        strict_lookup_algorithm [of sample_db 2 1 "- 1"]
        strict_lookup_algorithm [of mirror_db 2 1 "- 1"]
  by (simp add: sample_db_lookups mirror_db_lookups init_sample_feed)

text \<open>
  C3. For a pair that is a key in neither order, the strict lookup raises \<open>KeyError\<close>
  with a message that names the pair in the order it was asked, and \<open>get\<close> returns
  the caller's default. \<open>get\<close> returns a value for every pair of integers.
\<close>

theorem miss_behaviour:
  "(pair2rel self (a, b) = None \<and> pair2rel self (b, a) = None \<longrightarrow>
      getitem self (a, b) =
        Inl (KeyError (''unknown relationship '' @ fmt_d a @ ''-'' @ fmt_d b)) \<and>
      get self (a, b) missing = Inr (Missing missing)) \<and>
   (\<exists>res. get self (a, b) missing = Inr res)"
proof -
  have "\<exists>res. get self (a, b) missing = Inr res"
  proof (cases "getitem self (a, b)")
    case (Inl e)
    then obtain msg where "e = KeyError msg"
      using getitem_error_is_KeyError by blast
    with Inl show ?thesis by (simp add: get_def)
  next
    case (Inr r)
    then show ?thesis by (simp add: get_def)
  qed
  then show ?thesis by (simp add: getitem_miss get_def)
qed

theorem miss_behaviour_witness:
  "pair2rel sample_db (999999, 999998) = None \<and> pair2rel sample_db (999998, 999999) = None \<and>
   getitem sample_db (999999, 999998) = Inl (KeyError ''unknown relationship 999999-999998'') \<and>
   get sample_db (999999, 999998) (None :: unit option) = Inr (Missing None)"
proof -
  have f: "fmt_d 999999 = ''999999''" "fmt_d 999998 = ''999998''"
    by (simp_all add: fmt_d_def nat_digits.simps)
  from miss_behaviour [of sample_db 999999 999998 "None :: unit option"] show ?thesis
    by (simp add: f sample_db_lookups)
qed

text \<open>
  C1, as stated, fails: the feed that lists \<open>1|2|-1\<close> and later \<open>2|1|-1\<close> loads,
  the pair \<open>(1, 2)\<close> is stored with code \<open>-1\<close>, and the lookup of \<open>(2, 1)\<close>
  returns the code stored for \<open>(2, 1)\<close>, which is \<open>-1\<close> and not \<open>1\<close>.
\<close>

theorem symmetry_law_counterexample:
  "ASRelationshipsDB_init mirror_feed = Inr mirror_db \<and>
   pair2rel mirror_db (1, 2) = Some (- 1) \<and>
   getitem mirror_db (2, 1) = Inr (- 1) \<and>
   getitem mirror_db (2, 1) \<noteq> Inr (- (- 1))"
  by (simp add: init_mirror_feed mirror_db_lookups getitem_direct)

text \<open>
  C1, amended. For a stored pair \<open>(a, b)\<close> with code \<open>r\<close> the lookup of \<open>(a, b)\<close>
  returns \<open>r\<close>; the lookup of \<open>(b, a)\<close> returns \<open>-r\<close> when \<open>(b, a)\<close> is not
  itself a key, and the code stored for \<open>(b, a)\<close> when it is. So a peer link stored
  in one direction only reads \<open>0\<close> from both ends.
\<close>

theorem symmetry_law_amended:
  "pair2rel self (a, b) = Some r \<Longrightarrow>
   getitem self (a, b) = Inr r \<and>
   getitem self (b, a) = (case pair2rel self (b, a) of None \<Rightarrow> Inr (- r) | Some r' \<Rightarrow> Inr r') \<and>
   (r = P2P \<and> pair2rel self (b, a) = None \<longrightarrow>
      getitem self (a, b) = Inr P2P \<and> getitem self (b, a) = Inr P2P)"
  by (simp add: getitem_def P2P_def split: option.splits)

theorem symmetry_law_amended_witness:
  "pair2rel sample_db (1, 2) = Some (- 1) \<and>
   getitem sample_db (1, 2) = Inr (- 1) \<and> getitem sample_db (2, 1) = Inr 1 \<and>
   pair2rel sample_db (1, 1614) = Some 0 \<and>
   getitem sample_db (1, 1614) = Inr 0 \<and> getitem sample_db (1614, 1) = Inr 0 \<and>
   pair2rel mirror_db (1, 2) = Some (- 1) \<and> getitem mirror_db (2, 1) = Inr (- 1)"
  using symmetry_law_amended [OF sample_db_lookups(1)]
        symmetry_law_amended [OF sample_db_lookups(3)]
        symmetry_law_amended [OF mirror_db_lookups(1)]
  by (simp add: sample_db_lookups mirror_db_lookups)

section \<open>Properties of the constructor\<close>

lemma codes_valid_step:
  assumes "process_line self raw = Inr self'"
    and "\<forall>p r. pair2rel self p = Some r \<longrightarrow> r = P2C \<or> r = P2P"
  shows "\<forall>p r. pair2rel self' p = Some r \<longrightarrow> r = P2C \<or> r = P2P"
proof (cases "relationship_regexp (strip raw)")
  case None
  with process_line_frame [OF assms(1)] assms(2) show ?thesis by simp
next
  case (Some x)
  obtain g1 g2 g3 where x: "x = (g1, g2, g3)" by (cases x) auto
  from assms(1) process_line_relationship [OF Some [unfolded x], of self]
  obtain rel where "rel \<in> relationship_valid"
    and "self' = self\<lparr>pair2rel := (pair2rel self)((decimal g1, decimal g2) \<mapsto> rel)\<rparr>"
    by (auto split: option.splits if_splits)
  with assms(2) show ?thesis
    by (auto simp: relationship_valid_def)
qed

lemma codes_valid_load:
  assumes "load_lines self lines = Inr self'"
    and "\<forall>p r. pair2rel self p = Some r \<longrightarrow> r = P2C \<or> r = P2P"
  shows "\<forall>p r. pair2rel self' p = Some r \<longrightarrow> r = P2C \<or> r = P2P"
  using assms(2) assms(1)
  by (rule load_lines_invariant [where P = "\<lambda>s. \<forall>p r. pair2rel s p = Some r \<longrightarrow> r = P2C \<or> r = P2P",
        rotated]) (rule codes_valid_step)

lemma bad_code_fatal:
  assumes "relationship_regexp (strip raw) = Some (g1, g2, g3)"
    and "py_int g3 \<noteq> Some P2C" "py_int g3 \<noteq> Some P2P"
  shows "\<exists>e. process_line self raw = Inl e"
  using assms(2,3) process_line_relationship [OF assms(1), of self]
  by (auto simp: relationship_valid_def split: option.splits)

text \<open>
  C4. Every code in the table that the constructor returns is \<open>P2C\<close> or \<open>P2P\<close>,
  never \<open>C2P\<close>; each line that is processed keeps it so; and a relationship line
  whose third field does not read as \<open>-1\<close> or \<open>0\<close> makes the constructor fail,
  wherever it stands in the feed.
\<close>

theorem stored_code_invariant:
  "(ASRelationshipsDB_init lines = Inr db \<longrightarrow>
      (\<forall>p r. pair2rel db p = Some r \<longrightarrow> (r = P2C \<or> r = P2P) \<and> r \<noteq> C2P)) \<and>
   (process_line self raw = Inr self' \<and>
      (\<forall>p r. pair2rel self p = Some r \<longrightarrow> r = P2C \<or> r = P2P) \<longrightarrow>
      (\<forall>p r. pair2rel self' p = Some r \<longrightarrow> r = P2C \<or> r = P2P)) \<and>
   (relationship_regexp (strip raw) = Some (g1, g2, g3) \<and>
      py_int g3 \<noteq> Some P2C \<and> py_int g3 \<noteq> Some P2P \<longrightarrow>
      (\<exists>e. process_line self raw = Inl e) \<and>
      (\<exists>e. ASRelationshipsDB_init (pre @ raw # post) = Inl e))"
proof (intro conjI impI)
  assume "ASRelationshipsDB_init lines = Inr db"
  then have "load_lines empty_db lines = Inr db" by (simp add: init_Inr)
  moreover have "\<forall>p r. pair2rel empty_db p = Some r \<longrightarrow> r = P2C \<or> r = P2P"
    by (simp add: empty_db_def)
  ultimately have "\<forall>p r. pair2rel db p = Some r \<longrightarrow> r = P2C \<or> r = P2P"
    by (rule codes_valid_load)
  then show "\<forall>p r. pair2rel db p = Some r \<longrightarrow> (r = P2C \<or> r = P2P) \<and> r \<noteq> C2P"
    by (fastforce simp: P2C_def P2P_def C2P_def)
next
  assume "process_line self raw = Inr self' \<and>
      (\<forall>p r. pair2rel self p = Some r \<longrightarrow> r = P2C \<or> r = P2P)"
  then show "\<forall>p r. pair2rel self' p = Some r \<longrightarrow> r = P2C \<or> r = P2P"
    using codes_valid_step by blast
next
  assume a: "relationship_regexp (strip raw) = Some (g1, g2, g3) \<and>
      py_int g3 \<noteq> Some P2C \<and> py_int g3 \<noteq> Some P2P"
  then show "\<exists>e. process_line self raw = Inl e"
    using bad_code_fatal by blast
  from a have "\<And>s. \<exists>e. process_line s raw = Inl e"
    using bad_code_fatal by blast
  then show "\<exists>e. ASRelationshipsDB_init (pre @ raw # post) = Inl e"
    by (rule init_fatal)
qed

theorem stored_code_invariant_witness:
  "ASRelationshipsDB_init sample_feed = Inr sample_db \<and>
   pair2rel sample_db (1, 2) = Some P2C \<and> pair2rel sample_db (1, 1614) = Some P2P \<and>
   \<not> (\<exists>p. pair2rel sample_db p = Some C2P) \<and>
   process_line sample_db ''2|1|-1\<newline>'' = Inr mirror_db \<and>
   pair2rel mirror_db (2, 1) = Some P2C \<and>
   \<not> (\<exists>p. pair2rel mirror_db p = Some C2P) \<and>
   relationship_regexp (strip ''1|2|1\<newline>'') = Some (''1'', ''2'', ''1'') \<and>
   py_int ''1'' = Some C2P \<and>
   (\<exists>e. process_line sample_db ''1|2|1\<newline>'' = Inl e) \<and>
   (\<exists>e. ASRelationshipsDB_init (sample_feed @ ''1|2|1\<newline>'' # []) = Inl e)"
proof -
  note t = stored_code_invariant [of sample_feed sample_db sample_db "''2|1|-1\<newline>''"
      mirror_db "''1''" "''2''" "''1''" sample_feed "[]"]
  note t' = stored_code_invariant [of sample_feed sample_db sample_db "''1|2|1\<newline>''"
      mirror_db "''1''" "''2''" "''1''" sample_feed "[]"]
  have 1: "process_line sample_db ''2|1|-1\<newline>'' = Inr mirror_db"
    using process_rel_line [of 2 1 "- 1" sample_db]
    by (simp add: rel_line_def fmt_d_def nat_digits.simps mirror_db_def)
  have 2: "\<forall>p r. pair2rel sample_db p = Some r \<longrightarrow> r = P2C \<or> r = P2P"
    by (auto simp: sample_db_def sample_pair2rel_def chain_pair2rel_def P2C_def P2P_def split: if_splits)
  have 3: "py_int ''1'' = Some C2P"
    by (simp add: py_int_digits decimal_def digit_val_def isdigit_def C2P_def)
  have 4: "relationship_regexp (strip ''1|2|1\<newline>'') = Some (''1'', ''2'', ''1'')"
    by (simp add: line_eval)
  have 5: "py_int ''1'' \<noteq> Some P2C" "py_int ''1'' \<noteq> Some P2P"
    using 3 by (simp_all add: P2C_def P2P_def C2P_def)
  from t init_sample_feed
  have a: "\<forall>p r. pair2rel sample_db p = Some r \<longrightarrow> (r = P2C \<or> r = P2P) \<and> r \<noteq> C2P"
    by simp
  from t 1 2 have b: "\<forall>p r. pair2rel mirror_db p = Some r \<longrightarrow> r = P2C \<or> r = P2P"
    by simp
  from t' 4 5
  have c: "(\<exists>e. process_line sample_db ''1|2|1\<newline>'' = Inl e) \<and>
           (\<exists>e. ASRelationshipsDB_init (sample_feed @ ''1|2|1\<newline>'' # []) = Inl e)"
    by simp
  from a have a': "\<not> (\<exists>p. pair2rel sample_db p = Some C2P)"
    by blast
  from b have b': "\<not> (\<exists>p. pair2rel mirror_db p = Some C2P)"
    by (fastforce simp: P2C_def P2P_def C2P_def)
  from a' b' c 1 3 4 show ?thesis
    by (simp add: init_sample_feed sample_db_lookups mirror_db_lookups P2C_def P2P_def)
qed

text \<open>
  C5. The constructor returns a table exactly when the loop ran through every line and
  left a non-empty provenance set, a non-empty clique set, a non-empty exchange-point
  set and more than 1000 keys in the pair-to-code mapping; the table returned is the one
  the loop left. When the loop ran through and one of the four conditions fails, the
  constructor fails with \<open>AssertionError\<close>; a feed of exactly 1000 relationships
  is among those.
\<close>

theorem post_load_check:
  "(ASRelationshipsDB_init lines = Inr db \<longleftrightarrow>
      load_lines empty_db lines = Inr db \<and> sources db \<noteq> {} \<and> clique db \<noteq> {} \<and>
      ixps db \<noteq> {} \<and> 1000 < card (dom (pair2rel db))) \<and>
   (load_lines empty_db lines = Inr db \<and>
      (sources db = {} \<or> clique db = {} \<or> ixps db = {} \<or> card (dom (pair2rel db)) \<le> 1000)
      \<longrightarrow> ASRelationshipsDB_init lines = Inl AssertionError)"
  by (auto simp: ASRelationshipsDB_init_def split: sum.splits)

theorem post_load_check_witness:
  "ASRelationshipsDB_init sample_feed = Inr sample_db \<and>
   load_lines empty_db sample_feed = Inr sample_db \<and>
   sources sample_db \<noteq> {} \<and> clique sample_db \<noteq> {} \<and> ixps sample_db \<noteq> {} \<and>
   1000 < card (dom (pair2rel sample_db)) \<and>
   load_lines empty_db sample_header =
     Inr \<lparr>sources = {sample_source}, clique = {174, 209, 286}, ixps = {1200, 4635},
          pair2rel = Map.empty\<rparr> \<and>
   ASRelationshipsDB_init sample_header = Inl AssertionError \<and>
   load_lines empty_db short_feed = Inr short_db \<and>
   card (dom (pair2rel short_db)) = 1000 \<and>
   ASRelationshipsDB_init short_feed = Inl AssertionError"
  using post_load_check [of sample_feed sample_db]
        post_load_check [of sample_header
          "\<lparr>sources = {sample_source}, clique = {174, 209, 286}, ixps = {1200, 4635},
            pair2rel = Map.empty\<rparr>"]
        post_load_check [of short_feed short_db]
  by (simp add: init_sample_feed load_sample_header load_short_feed short_db_card)

text \<open>
  C6. A line whose trimmed text is three fields \<open>g1|g2|g3\<close> of the relationship
  grammar, with \<open>g3\<close> reading as \<open>-1\<close> or \<open>0\<close>, stores that code under the key
  (value of \<open>g1\<close>, value of \<open>g2\<close>), in the order read. Every other key, the reversed
  pair among them, keeps what it had, and so do the three sets.
\<close>

theorem ordered_storage:
  assumes "relationship_regexp (strip raw) = Some (g1, g2, g3)"
    and "py_int g3 = Some rel" and "rel = P2C \<or> rel = P2P"
  shows "(\<exists>t. strip raw = g1 @ ''|'' @ g2 @ ''|'' @ g3 @ t \<and> at_end t) \<and>
         process_line self raw =
           Inr (self\<lparr>pair2rel := (pair2rel self)((decimal g1, decimal g2) \<mapsto> rel)\<rparr>) \<and>
         (\<forall>self'. process_line self raw = Inr self' \<longrightarrow>
            pair2rel self' (decimal g1, decimal g2) = Some rel \<and>
            (\<forall>k. k \<noteq> (decimal g1, decimal g2) \<longrightarrow> pair2rel self' k = pair2rel self k) \<and>
            sources self' = sources self \<and> clique self' = clique self \<and>
            ixps self' = ixps self)"
proof -
  from assms(3) have "rel \<in> relationship_valid"
    by (auto simp: relationship_valid_def)
  with assms(2) process_line_relationship [OF assms(1), of self]
  have "process_line self raw =
          Inr (self\<lparr>pair2rel := (pair2rel self)((decimal g1, decimal g2) \<mapsto> rel)\<rparr>)"
    by simp
  moreover from relationship_regexp_SomeD [OF assms(1)]
  obtain t where "strip raw = g1 @ CHR ''|'' # g2 @ CHR ''|'' # g3 @ t" "at_end t"
    by blast
  then have "\<exists>t. strip raw = g1 @ ''|'' @ g2 @ ''|'' @ g3 @ t \<and> at_end t"
    by simp
  ultimately show ?thesis by simp
qed

theorem ordered_storage_witness:
  "relationship_regexp (strip ''1|2|0\<newline>'') = Some (''1'', ''2'', ''0'') \<and>
   py_int ''0'' = Some P2P \<and>
   pair2rel mirror_db (1, 2) = Some (- 1) \<and> pair2rel mirror_db (2, 1) = Some (- 1) \<and>
   process_line mirror_db ''1|2|0\<newline>'' =
     Inr (mirror_db\<lparr>pair2rel := (pair2rel mirror_db)((1, 2) \<mapsto> 0)\<rparr>) \<and>
   relationship_regexp (strip ''1614|1|0\<newline>'') = Some (''1614'', ''1'', ''0'') \<and>
   pair2rel sample_db (1, 1614) = Some 0 \<and> pair2rel sample_db (1614, 1) = None \<and>
   process_line sample_db ''1614|1|0\<newline>'' =
     Inr (sample_db\<lparr>pair2rel := (pair2rel sample_db)((1614, 1) \<mapsto> 0)\<rparr>)"
proof -
  have m: "relationship_regexp (strip ''1|2|0\<newline>'') = Some (''1'', ''2'', ''0'')"
    "relationship_regexp (strip ''1614|1|0\<newline>'') = Some (''1614'', ''1'', ''0'')"
    by (simp_all add: line_eval)
  have c: "py_int ''0'' = Some P2P"
    by (simp add: py_int_digits decimal_def digit_val_def isdigit_def P2P_def)
  have d: "decimal ''1'' = 1" "decimal ''2'' = 2" "decimal ''1614'' = 1614"
    by (simp_all add: decimal_def digit_val_def)
  have v: "P2P = P2C \<or> P2P = P2P" by simp
  note t1 = ordered_storage [OF m(1) c v, of mirror_db, THEN conjunct2, THEN conjunct1]
  note t2 = ordered_storage [OF m(2) c v, of sample_db, THEN conjunct2, THEN conjunct1]
  from t1 t2 show ?thesis
    unfolding d by (simp add: m c P2P_def mirror_db_lookups sample_db_lookups)
qed

lemma clique_kept:
  "\<forall>l\<in>set post. match_clique (strip l) = None \<Longrightarrow> load_lines s post = Inr s'
   \<Longrightarrow> clique s' = clique s"
proof (induction post arbitrary: s)
  case Nil
  then show ?case by simp
next
  case (Cons l post)
  from Cons.prems(2) obtain s1 where 1: "process_line s l = Inr s1"
    and 2: "load_lines s1 post = Inr s'"
    by (auto split: sum.splits)
  from process_line_frame [OF 1] Cons.prems(1) have "clique s1 = clique s" by simp
  moreover from Cons.IH [OF _ 2] Cons.prems(1) have "clique s' = clique s1" by simp
  ultimately show ?case by simp
qed

lemma ixps_kept:
  "\<forall>l\<in>set post. match_ixps (strip l) = None \<Longrightarrow> load_lines s post = Inr s'
   \<Longrightarrow> ixps s' = ixps s"
proof (induction post arbitrary: s)
  case Nil
  then show ?case by simp
next
  case (Cons l post)
  from Cons.prems(2) obtain s1 where 1: "process_line s l = Inr s1"
    and 2: "load_lines s1 post = Inr s'"
    by (auto split: sum.splits)
  from process_line_frame [OF 1] Cons.prems(1) have "ixps s1 = ixps s" by simp
  moreover from Cons.IH [OF _ 2] Cons.prems(1) have "ixps s' = ixps s1" by simp
  ultimately show ?case by simp
qed

lemma load_lines_split:
  assumes "load_lines self (pre @ raw # post) = Inr self'"
  obtains s1 s2 where "load_lines self pre = Inr s1" "process_line s1 raw = Inr s2"
    "load_lines s2 post = Inr self'"
  using assms by (auto simp: load_lines_append split: sum.splits)

text \<open>
  C7. A clique line sets the clique set to the integers listed on it, whatever the set
  held before, and an exchange-point line does so for the exchange-point set. When the
  loop has run through a feed, each of the two sets holds the integers of the last line
  of its kind.
\<close>

theorem wholesale_replacement:
  "(match_clique (strip raw) = Some g \<longrightarrow>
      process_line self raw = Inr (self\<lparr>clique := set (map decimal (split_ws g))\<rparr>)) \<and>
   (match_ixps (strip raw) = Some g \<longrightarrow>
      process_line self raw = Inr (self\<lparr>ixps := set (map decimal (split_ws g))\<rparr>)) \<and>
   (match_clique (strip raw) = Some g \<and> (\<forall>l\<in>set post. match_clique (strip l) = None) \<and>
      load_lines self (pre @ raw # post) = Inr self' \<longrightarrow>
      clique self' = set (map decimal (split_ws g))) \<and>
   (match_ixps (strip raw) = Some g \<and> (\<forall>l\<in>set post. match_ixps (strip l) = None) \<and>
      load_lines self (pre @ raw # post) = Inr self' \<longrightarrow>
      ixps self' = set (map decimal (split_ws g)))"
proof (intro conjI impI; (elim conjE)?)
  assume "match_clique (strip raw) = Some g"
  then show "process_line self raw = Inr (self\<lparr>clique := set (map decimal (split_ws g))\<rparr>)"
    by (rule process_line_clique)
next
  assume "match_ixps (strip raw) = Some g"
  then show "process_line self raw = Inr (self\<lparr>ixps := set (map decimal (split_ws g))\<rparr>)"
    by (rule process_line_ixps)
next
  assume m: "match_clique (strip raw) = Some g"
    and n: "\<forall>l\<in>set post. match_clique (strip l) = None"
    and l: "load_lines self (pre @ raw # post) = Inr self'"
  from l obtain s1 s2 where r: "process_line s1 raw = Inr s2"
    and p: "load_lines s2 post = Inr self'"
    by (rule load_lines_split)
  from r have "s2 = s1\<lparr>clique := set (map decimal (split_ws g))\<rparr>"
    unfolding process_line_clique [OF m] by simp
  then have "clique s2 = set (map decimal (split_ws g))" by simp
  with clique_kept [OF n p] show "clique self' = set (map decimal (split_ws g))" by simp
next
  assume m: "match_ixps (strip raw) = Some g"
    and n: "\<forall>l\<in>set post. match_ixps (strip l) = None"
    and l: "load_lines self (pre @ raw # post) = Inr self'"
  from l obtain s1 s2 where r: "process_line s1 raw = Inr s2"
    and p: "load_lines s2 post = Inr self'"
    by (rule load_lines_split)
  from r have "s2 = s1\<lparr>ixps := set (map decimal (split_ws g))\<rparr>"
    unfolding process_line_ixps [OF m] by simp
  then have "ixps s2 = set (map decimal (split_ws g))" by simp
  with ixps_kept [OF n p] show "ixps self' = set (map decimal (split_ws g))" by simp
qed

theorem wholesale_replacement_witness:
  "clique sample_db = {174, 209, 286} \<and>
   match_clique (strip ''# inferred clique: 3356 1299\<newline>'') = Some ''3356 1299'' \<and>
   process_line sample_db ''# inferred clique: 3356 1299\<newline>'' =
     Inr (sample_db\<lparr>clique := {3356, 1299}\<rparr>) \<and>
   match_clique (strip ''2|1|-1\<newline>'') = None \<and>
   load_lines sample_db
     ([''# inferred clique: 7018\<newline>''] @ ''# inferred clique: 3356 1299\<newline>''
        # [''2|1|-1\<newline>'']) = Inr (mirror_db\<lparr>clique := {3356, 1299}\<rparr>) \<and>
   clique (mirror_db\<lparr>clique := {3356, 1299}\<rparr>) = {3356, 1299} \<and>
   ixps sample_db = {1200, 4635} \<and>
   match_ixps (strip ''# IXP ASes: 6695\<newline>'') = Some ''6695'' \<and>
   process_line sample_db ''# IXP ASes: 6695\<newline>'' = Inr (sample_db\<lparr>ixps := {6695}\<rparr>) \<and>
   load_lines sample_db ([] @ ''# IXP ASes: 6695\<newline>'' # []) = Inr (sample_db\<lparr>ixps := {6695}\<rparr>)"
proof -
  let ?l0 = "''# inferred clique: 7018\<newline>''"
  let ?l1 = "''# inferred clique: 3356 1299\<newline>''"
  let ?l2 = "''2|1|-1\<newline>''"
  let ?i = "''# IXP ASes: 6695\<newline>''"
  have c0: "match_clique (strip ?l0) = Some ''7018''"
    and c1: "match_clique (strip ?l1) = Some ''3356 1299''"
    and c2: "match_clique (strip ?l2) = None"
    and i: "match_ixps (strip ?i) = Some ''6695''"
    by (simp_all add: line_eval)
  have sp: "split_ws ''7018'' = [''7018'']" "split_ws ''3356 1299'' = [''3356'', ''1299'']"
    "split_ws ''6695'' = [''6695'']"
    by (simp_all add: split_ws_def isspace_def)
  have d: "decimal ''7018'' = 7018" "decimal ''3356'' = 3356" "decimal ''1299'' = 1299"
    "decimal ''6695'' = 6695"
    by (simp_all add: decimal_def digit_val_def)
  note t1 = wholesale_replacement [where raw = ?l1 and g = "''3356 1299''"
      and self = sample_db and pre = "[]" and post = "[]" and self' = sample_db]
  note t2 = wholesale_replacement [where raw = ?l1 and g = "''3356 1299''"
      and self = sample_db and pre = "[?l0]" and post = "[?l2]"
      and self' = "mirror_db\<lparr>clique := {3356, 1299}\<rparr>"]
  note t3 = wholesale_replacement [where raw = ?i and g = "''6695''"
      and self = sample_db and pre = "[]" and post = "[]"
      and self' = "sample_db\<lparr>ixps := {6695}\<rparr>"]
  from t1 c1 have p: "process_line sample_db ?l1 = Inr (sample_db\<lparr>clique := {3356, 1299}\<rparr>)"
    by (simp add: sp d)
  have p0: "process_line sample_db ?l0 = Inr (sample_db\<lparr>clique := {7018}\<rparr>)"
    unfolding process_line_clique [OF c0] by (simp add: sp d)
  have p1: "process_line (sample_db\<lparr>clique := {7018}\<rparr>) ?l1
              = Inr (sample_db\<lparr>clique := {3356, 1299}\<rparr>)"
    unfolding process_line_clique [OF c1] by (simp add: sp d)
  have p2: "process_line (sample_db\<lparr>clique := {3356, 1299}\<rparr>) ?l2
              = Inr (mirror_db\<lparr>clique := {3356, 1299}\<rparr>)"
    using process_rel_line [of 2 1 "- 1" "sample_db\<lparr>clique := {3356, 1299}\<rparr>"]
    by (simp add: rel_line_def fmt_d_def nat_digits.simps mirror_db_def)
  have L: "load_lines sample_db ([?l0] @ ?l1 # [?l2]) = Inr (mirror_db\<lparr>clique := {3356, 1299}\<rparr>)"
    by (simp add: p0 p1 p2)
  from t2 c1 c2 L have q: "clique (mirror_db\<lparr>clique := {3356, 1299}\<rparr>) = {3356, 1299}"
    by (simp add: sp d)
  from t3 i have pi: "process_line sample_db ?i = Inr (sample_db\<lparr>ixps := {6695}\<rparr>)"
    by (simp add: sp d)
  then have Li: "load_lines sample_db ([] @ ?i # []) = Inr (sample_db\<lparr>ixps := {6695}\<rparr>)"
    by simp
  have s: "clique sample_db = {174, 209, 286}" "ixps sample_db = {1200, 4635}"
    by (simp_all add: sample_db_def)
  from s c1 p c2 L q i pi Li show ?thesis by simp
qed

lemma parse_source_good:
  assumes "match_source l = Some g" "DataSource_new (split_on CHR ''|'' g) = Inr src"
    "dtype src = ''topology''" "proto src = ''BGP''" "py_int (date src) = Some n" "0 < n"
  shows "parse_source self l = Inr (self\<lparr>sources := insert src (sources self)\<rparr>, True)"
  using assms by (simp add: parse_source_def)

lemma parse_source_bad:
  assumes "match_source l = Some g"
    and "\<forall>src. DataSource_new (split_on CHR ''|'' g) = Inr src \<longrightarrow>
           dtype src \<noteq> ''topology'' \<or> proto src \<noteq> ''BGP'' \<or>
           (\<forall>n. py_int (date src) = Some n \<longrightarrow> n \<le> 0)"
  shows "\<exists>e. parse_source self l = Inl e"
  using assms
  by (cases "DataSource_new (split_on CHR ''|'' g)")
     (auto simp: parse_source_def split: option.splits)

lemma process_line_source_bad:
  assumes "match_source (strip raw) = Some g"
    and "\<forall>src. DataSource_new (split_on CHR ''|'' g) = Inr src \<longrightarrow>
           dtype src \<noteq> ''topology'' \<or> proto src \<noteq> ''BGP'' \<or>
           (\<forall>n. py_int (date src) = Some n \<longrightarrow> n \<le> 0)"
  shows "\<exists>e. process_line self raw = Inl e"
proof -
  from parse_source_bad [OF assms] obtain e where "parse_source self (strip raw) = Inl e"
    by blast
  then show ?thesis
    unfolding process_line_source [OF assms(1)] by simp
qed

text \<open>
  C8. For a line of the provenance shape whose text after \<open># source:\<close> has five
  fields: when the first is \<open>topology\<close>, the second \<open>BGP\<close> and the third reads as a
  positive integer, the record is added to the provenance set and nothing else changes;
  when one of the three fails, the line fails and so does the constructor on every feed
  that contains the line. With another number of fields the record cannot be built and
  the line fails with \<open>TypeError\<close>.
\<close>

theorem provenance_validation:
  assumes "match_source (strip raw) = Some g"
  shows "(\<forall>src n. DataSource_new (split_on CHR ''|'' g) = Inr src \<and>
            dtype src = ''topology'' \<and> proto src = ''BGP'' \<and>
            py_int (date src) = Some n \<and> 0 < n \<longrightarrow>
            process_line self raw = Inr (self\<lparr>sources := insert src (sources self)\<rparr>)) \<and>
         (\<forall>src. DataSource_new (split_on CHR ''|'' g) = Inr src \<and>
            (dtype src \<noteq> ''topology'' \<or> proto src \<noteq> ''BGP'' \<or>
             (\<forall>n. py_int (date src) = Some n \<longrightarrow> n \<le> 0)) \<longrightarrow>
            (\<exists>e. process_line self raw = Inl e) \<and>
            (\<exists>e. ASRelationshipsDB_init (pre @ raw # post) = Inl e)) \<and>
         ((\<forall>src. DataSource_new (split_on CHR ''|'' g) \<noteq> Inr src) \<longrightarrow>
            process_line self raw = Inl TypeError \<and>
            (\<exists>e. ASRelationshipsDB_init (pre @ raw # post) = Inl e))"
proof (intro conjI allI impI; (elim conjE)?)
  fix src n
  assume "DataSource_new (split_on CHR ''|'' g) = Inr src" "dtype src = ''topology''"
    "proto src = ''BGP''" "py_int (date src) = Some n" "0 < n"
  from parse_source_good [OF assms this]
  show "process_line self raw = Inr (self\<lparr>sources := insert src (sources self)\<rparr>)"
    unfolding process_line_source [OF assms] by simp
next
  fix src
  assume new: "DataSource_new (split_on CHR ''|'' g) = Inr src"
    and bad: "dtype src \<noteq> ''topology'' \<or> proto src \<noteq> ''BGP'' \<or>
             (\<forall>n. py_int (date src) = Some n \<longrightarrow> n \<le> 0)"
  then have b: "\<forall>src. DataSource_new (split_on CHR ''|'' g) = Inr src \<longrightarrow>
           dtype src \<noteq> ''topology'' \<or> proto src \<noteq> ''BGP'' \<or>
           (\<forall>n. py_int (date src) = Some n \<longrightarrow> n \<le> 0)"
    by simp
  show "\<exists>e. process_line self raw = Inl e"
    using assms b by (rule process_line_source_bad)
  have "\<And>s. \<exists>e. process_line s raw = Inl e"
    using assms b by (rule process_line_source_bad)
  then show "\<exists>e. ASRelationshipsDB_init (pre @ raw # post) = Inl e"
    by (rule init_fatal)
next
  assume no: "\<forall>src. DataSource_new (split_on CHR ''|'' g) \<noteq> Inr src"
  then obtain e where e: "DataSource_new (split_on CHR ''|'' g) = Inl e"
    by (cases "DataSource_new (split_on CHR ''|'' g)") auto
  then have "e = TypeError"
    by (cases "(split_on CHR ''|'' g)" rule: DataSource_new.cases) auto
  with e have p: "\<And>s. parse_source s (strip raw) = Inl TypeError"
    using assms by (simp add: parse_source_def)
  then show "process_line self raw = Inl TypeError"
    unfolding process_line_source [OF assms] by simp
  from p have "\<And>s. \<exists>e. process_line s raw = Inl e"
    unfolding process_line_source [OF assms] by simp
  then show "\<exists>e. ASRelationshipsDB_init (pre @ raw # post) = Inl e"
    by (rule init_fatal)
qed

theorem provenance_validation_witness:
  "match_source (strip ''# source:topology|BGP|20130801|ripe|rrc00\<newline>'')
     = Some ''topology|BGP|20130801|ripe|rrc00'' \<and>
   DataSource_new (split_on CHR ''|'' ''topology|BGP|20130801|ripe|rrc00'') = Inr sample_source \<and>
   py_int (date sample_source) = Some 20130801 \<and>
   process_line empty_db ''# source:topology|BGP|20130801|ripe|rrc00\<newline>''
     = Inr (empty_db\<lparr>sources := insert sample_source (sources empty_db)\<rparr>) \<and>
   match_source (strip ''# source:topology|OSPF|20130801|ripe|rrc00\<newline>'')
     = Some ''topology|OSPF|20130801|ripe|rrc00'' \<and>
   (\<exists>e. process_line empty_db ''# source:topology|OSPF|20130801|ripe|rrc00\<newline>'' = Inl e) \<and>
   (\<exists>e. ASRelationshipsDB_init
          (sample_feed @ ''# source:topology|OSPF|20130801|ripe|rrc00\<newline>'' # []) = Inl e) \<and>
   match_source (strip ''# source:topology|BGP|0|ripe|rrc00\<newline>'')
     = Some ''topology|BGP|0|ripe|rrc00'' \<and>
   py_int ''0'' = Some 0 \<and>
   (\<exists>e. process_line empty_db ''# source:topology|BGP|0|ripe|rrc00\<newline>'' = Inl e) \<and>
   match_source (strip ''# source:topology|BGP|20130801|ripe\<newline>'')
     = Some ''topology|BGP|20130801|ripe'' \<and>
   process_line empty_db ''# source:topology|BGP|20130801|ripe\<newline>'' = Inl TypeError"
proof -
  let ?good = "''# source:topology|BGP|20130801|ripe|rrc00\<newline>''"
  let ?ospf = "''# source:topology|OSPF|20130801|ripe|rrc00\<newline>''"
  let ?zero = "''# source:topology|BGP|0|ripe|rrc00\<newline>''"
  let ?four = "''# source:topology|BGP|20130801|ripe\<newline>''"
  have m: "match_source (strip ?good) = Some ''topology|BGP|20130801|ripe|rrc00''"
    "match_source (strip ?ospf) = Some ''topology|OSPF|20130801|ripe|rrc00''"
    "match_source (strip ?zero) = Some ''topology|BGP|0|ripe|rrc00''"
    "match_source (strip ?four) = Some ''topology|BGP|20130801|ripe''"
    by (simp_all add: line_eval)
  have n: "DataSource_new (split_on CHR ''|'' ''topology|BGP|20130801|ripe|rrc00'')
             = Inr sample_source"
    "DataSource_new (split_on CHR ''|'' ''topology|OSPF|20130801|ripe|rrc00'')
       = Inr (sample_source\<lparr>proto := ''OSPF''\<rparr>)"
    "DataSource_new (split_on CHR ''|'' ''topology|BGP|0|ripe|rrc00'')
       = Inr (sample_source\<lparr>date := ''0''\<rparr>)"
    "DataSource_new (split_on CHR ''|'' ''topology|BGP|20130801|ripe'') = Inl TypeError"
    by (simp_all add: split_on_def sample_source_def)
  have d: "py_int (date sample_source) = Some 20130801" "py_int ''0'' = Some 0"
    by (simp_all add: sample_source_def py_int_digits decimal_def digit_val_def isdigit_def)
  have f: "dtype sample_source = ''topology''" "proto sample_source = ''BGP''"
    by (simp_all add: sample_source_def)
  from provenance_validation [OF m(1), of empty_db sample_feed "[]"] n(1) d(1) f
  have 1: "process_line empty_db ?good
             = Inr (empty_db\<lparr>sources := insert sample_source (sources empty_db)\<rparr>)"
    by simp
  from provenance_validation [OF m(2), of empty_db sample_feed "[]"] n(2)
  have 2: "(\<exists>e. process_line empty_db ?ospf = Inl e) \<and>
           (\<exists>e. ASRelationshipsDB_init (sample_feed @ ?ospf # []) = Inl e)"
    by simp
  from provenance_validation [OF m(3), of empty_db sample_feed "[]"] n(3) d(2)
  have 3: "\<exists>e. process_line empty_db ?zero = Inl e"
    by simp
  from provenance_validation [OF m(4), of empty_db sample_feed "[]"] n(4)
  have 4: "process_line empty_db ?four = Inl TypeError"
    by simp
  from m n(1) d 1 2 3 4 show ?thesis by simp
qed

text \<open>
  C9. A line whose trimmed text matches none of the four patterns is passed over
  when its first character is \<open>#\<close>. When it is empty or starts with another
  character, the line fails, and the constructor fails on every feed that contains the
  line; a non-empty line fails the assertion.
\<close>

theorem comment_fallback:
  assumes "match_source (strip raw) = None" "match_clique (strip raw) = None"
    "match_ixps (strip raw) = None" "relationship_regexp (strip raw) = None"
  shows "(strip raw \<noteq> [] \<and> hd (strip raw) = CHR ''#'' \<longrightarrow> process_line self raw = Inr self) \<and>
         (strip raw = [] \<or> hd (strip raw) \<noteq> CHR ''#'' \<longrightarrow>
            (\<exists>e. process_line self raw = Inl e) \<and>
            (\<exists>e. ASRelationshipsDB_init (pre @ raw # post) = Inl e)) \<and>
         (strip raw \<noteq> [] \<and> hd (strip raw) \<noteq> CHR ''#'' \<longrightarrow>
            process_line self raw = Inl AssertionError)"
proof -
  note p = process_line_other [OF assms]
  have 1: "strip raw \<noteq> [] \<and> hd (strip raw) = CHR ''#'' \<longrightarrow> process_line self raw = Inr self"
    unfolding p by (cases "strip raw") auto
  have 3: "strip raw \<noteq> [] \<and> hd (strip raw) \<noteq> CHR ''#'' \<longrightarrow>
            process_line self raw = Inl AssertionError"
    unfolding p by (cases "strip raw") auto
  have 2: "strip raw = [] \<or> hd (strip raw) \<noteq> CHR ''#'' \<longrightarrow>
            (\<exists>e. process_line self raw = Inl e) \<and>
            (\<exists>e. ASRelationshipsDB_init (pre @ raw # post) = Inl e)"
  proof
    assume a: "strip raw = [] \<or> hd (strip raw) \<noteq> CHR ''#''"
    then have f: "\<And>s. \<exists>e. process_line s raw = Inl e"
      unfolding p by (cases "strip raw") auto
    from f [of self] init_fatal [of raw pre post, OF f]
    show "(\<exists>e. process_line self raw = Inl e) \<and>
            (\<exists>e. ASRelationshipsDB_init (pre @ raw # post) = Inl e)"
      by simp
  qed
  from 1 2 3 show ?thesis by simp
qed

theorem comment_fallback_witness:
  "strip ''# step 2: find provider-customer links\<newline>''
     = ''# step 2: find provider-customer links'' \<and>
   process_line sample_db ''# step 2: find provider-customer links\<newline>'' = Inr sample_db \<and>
   strip ''1|2|-1|bgp\<newline>'' = ''1|2|-1|bgp'' \<and>
   relationship_regexp (strip ''1|2|-1|bgp\<newline>'') = None \<and>
   process_line sample_db ''1|2|-1|bgp\<newline>'' = Inl AssertionError \<and>
   (\<exists>e. ASRelationshipsDB_init (sample_feed @ ''1|2|-1|bgp\<newline>'' # []) = Inl e)"
proof -
  let ?c = "''# step 2: find provider-customer links\<newline>''"
  let ?d = "''1|2|-1|bgp\<newline>''"
  have s: "strip ?c = ''# step 2: find provider-customer links''" "strip ?d = ''1|2|-1|bgp''"
    by (simp_all add: strip_def isspace_def)
  have mc: "match_source (strip ?c) = None" "match_clique (strip ?c) = None"
    "match_ixps (strip ?c) = None" "relationship_regexp (strip ?c) = None"
    by (simp_all add: line_eval)
  have md: "match_source (strip ?d) = None" "match_clique (strip ?d) = None"
    "match_ixps (strip ?d) = None" "relationship_regexp (strip ?d) = None"
    by (simp_all add: line_eval)
  from comment_fallback [OF mc, of sample_db sample_feed "[]"]
  have 1: "process_line sample_db ?c = Inr sample_db"
    unfolding s by simp
  from comment_fallback [OF md, of sample_db sample_feed "[]"]
  have 2: "process_line sample_db ?d = Inl AssertionError \<and>
           (\<exists>e. ASRelationshipsDB_init (sample_feed @ ?d # []) = Inl e)"
    unfolding s by simp
  from s md(4) 1 2 show ?thesis by simp
qed

text \<open>
  C10. A line of whitespace only is empty after trimming, matches none of the four
  patterns and fails with \<open>IndexError\<close> at \<open>line[0]\<close>. The constructor fails on
  every feed that contains such a line, and with \<open>IndexError\<close> when the lines before
  it were processed.
\<close>

theorem blank_line_fatal:
  assumes "\<forall>c\<in>set raw. isspace c"
  shows "strip raw = [] \<and>
         match_source (strip raw) = None \<and> match_clique (strip raw) = None \<and>
         match_ixps (strip raw) = None \<and> relationship_regexp (strip raw) = None \<and>
         process_line self raw = Inl IndexError \<and>
         (\<exists>e. ASRelationshipsDB_init (pre @ raw # post) = Inl e) \<and>
         (\<forall>s. load_lines empty_db pre = Inr s \<longrightarrow>
            ASRelationshipsDB_init (pre @ raw # post) = Inl IndexError)"
proof -
  from assms have s: "strip raw = []" by (rule strip_all_space)
  have f: "\<And>s. process_line s raw = Inl IndexError"
    using assms by (rule process_line_blank)
  then have "\<And>s. \<exists>e. process_line s raw = Inl e" by simp
  then have i: "\<exists>e. ASRelationshipsDB_init (pre @ raw # post) = Inl e"
    by (rule init_fatal)
  have "\<forall>s. load_lines empty_db pre = Inr s \<longrightarrow>
            ASRelationshipsDB_init (pre @ raw # post) = Inl IndexError"
    by (simp add: ASRelationshipsDB_init_def load_lines_append f)
  with s f i show ?thesis
    by (simp add: empty_line_no_match)
qed

theorem blank_line_fatal_witness:
  "strip ''\<newline>'' = [] \<and> process_line sample_db ''\<newline>'' = Inl IndexError \<and>
   load_lines empty_db sample_feed = Inr sample_db \<and>
   ASRelationshipsDB_init sample_feed = Inr sample_db \<and>
   ASRelationshipsDB_init (sample_feed @ ''\<newline>'' # []) = Inl IndexError \<and>
   strip [CHR '' '', CHR 0x09, CHR 0x0D, CHR 0x0A] = [] \<and>
   process_line sample_db [CHR '' '', CHR 0x09, CHR 0x0D, CHR 0x0A] = Inl IndexError"
proof -
  have 1: "\<forall>c\<in>set ''\<newline>''. isspace c"
    and 2: "\<forall>c\<in>set [CHR '' '', CHR 0x09, CHR 0x0D, CHR 0x0A]. isspace c"
    by (simp_all add: isspace_def)
  from blank_line_fatal [OF 1, of sample_db sample_feed "[]"]
       blank_line_fatal [OF 2, of sample_db sample_feed "[]"]
  show ?thesis
    by (simp add: load_sample_feed init_sample_feed)
qed

end
